theory Spec2Isabelle
  imports Complex_Main "HOL-Library.Multiset"
begin

section \<open>Data model (types.ts)\<close>

text \<open>
  The interfaces of \<^verbatim>\<open>types.ts\<close> become records and its enums datatypes. Several
  interfaces share the field names \<^verbatim>\<open>id\<close>, \<^verbatim>\<open>tournamentId\<close>, \<^verbatim>\<open>userId\<close>, ..., which
  a HOL theory can declare only once, so each record prefixes the shared names with the
  initial of its interface (\<open>m_id\<close> is \<^verbatim>\<open>Match.id\<close>, \<open>a_tournamentId\<close> is
  \<^verbatim>\<open>Assignment.tournamentId\<close>). An optional field (\<^verbatim>\<open>teamAId?: string\<close>) and a nullable
  one (\<^verbatim>\<open>scoreA: number | null\<close>) are \<open>option\<close>s. Identifiers, names and time stamps
  are strings.
\<close>

datatype UserRole = ADMIN | MEMBER

datatype TournamentStatus = UPCOMING | ACTIVE | FINISHED

datatype TournamentType = LOTTERY | USERS_ONLY

datatype TeamType = CLUB | NATIONAL

record User =
  u_id :: string
  u_username :: string
  u_role :: UserRole
  avatar :: "string option"
  u_createdAt :: string
  password :: "string option"

record InvitationCode =
  i_id :: string
  code :: string
  i_isActive :: bool
  createdBy :: string
  i_createdAt :: string

record GlobalTeam =
  g_id :: string
  g_name :: string
  g_type :: TeamType
  logo :: "string option"
  g_isActive :: bool
  g_createdAt :: string
  updatedAt :: string

record Tournament =
  t_id :: string
  t_name :: string
  t_type :: TournamentType
  startDate :: string
  status :: TournamentStatus
  description :: "string option"
  t_createdAt :: string
  participantUserIds :: "string list"
  selectedTeamIds :: "string list"

record Assignment =
  a_id :: string
  a_tournamentId :: string
  a_userId :: string
  teamId :: string

record MatchHistory =
  h_scoreA :: "int option"
  h_scoreB :: "int option"
  h_isCompleted :: bool

text \<open>
  A stored score is \<^verbatim>\<open>null\<close> or a number. The only writer that validates its input
  (\<open>updateMatch\<close> below) stores non-negative integers, so a stored score is an
  \<open>int option\<close>; the standings read it as a double.
\<close>

record Match =
  m_id :: string
  m_tournamentId :: string
  matchday :: nat
  playerAId :: string
  playerBId :: string
  teamAId :: "string option"
  teamBId :: "string option"
  scoreA :: "int option"
  scoreB :: "int option"
  isCompleted :: bool
  isSimulated :: "bool option"
  history :: "MatchHistory option"

record AuditLog =
  l_id :: string
  l_userId :: string
  action :: string
  l_timestamp :: string
  details :: string

record ChatMessage =
  c_id :: string
  c_userId :: string
  c_username :: string
  c_role :: UserRole
  c_text :: string
  c_timestamp :: string
  c_tournamentId :: "string option"

text \<open>
  The counters and totals of a row of the standings are numbers as the standings compute
  them: integer-valued doubles, the infinities and \<^verbatim>\<open>NaN\<close> (see the section on the
  standings).
\<close>

datatype JsNumber = Num int | PosInfinity | NegInfinity | NaN

record StandingStat =
  s_id :: string
  s_username :: string
  s_p :: JsNumber
  s_w :: JsNumber
  s_d :: JsNumber
  s_l :: JsNumber
  s_gf :: JsNumber
  s_ga :: JsNumber
  s_pts :: JsNumber

section \<open>The local-storage DatabaseService (services/db.ts, lines 7-240)\<close>

text \<open>
  The service holds one mutable object \<^verbatim>\<open>this.data\<close> and writes it to local storage
  after every change (\<^verbatim>\<open>save()\<close>). The model passes the object explicitly: an operation
  takes the data and returns the new data, or the error it throws. \<open>updateMatch\<close> returns
  with the error the data as the \<^verbatim>\<open>throw\<close> leaves it.
\<close>

record Data =
  users :: "User list"
  invitationCodes :: "InvitationCode list"
  globalTeams :: "GlobalTeam list"
  tournaments :: "Tournament list"
  assignments :: "Assignment list"
  matches :: "Match list"
  auditLogs :: "AuditLog list"
  chatMessages :: "ChatMessage list"

text \<open>
  The arguments of \<^verbatim>\<open>updateMatch\<close> are typed \<^verbatim>\<open>number\<close>, and the function checks at
  run time what it was given. A JavaScript value is, for these checks, a finite number
  (every finite double is a rational), \<^verbatim>\<open>NaN\<close>, an infinity, or a value whose
  \<^verbatim>\<open>typeof\<close> is not \<^verbatim>\<open>'number'\<close>.
\<close>

datatype JsValue = JsFinite rat | JsNaN | JsInfinity bool | JsNotANumber

fun typeof_number :: "JsValue \<Rightarrow> bool" where
  "typeof_number JsNotANumber = False"
| "typeof_number _ = True"

fun isNaN :: "JsValue \<Rightarrow> bool" where
  "isNaN JsNaN = True"
| "isNaN _ = False"

text \<open>\<^verbatim>\<open>x < 0\<close> on a number: false for \<^verbatim>\<open>NaN\<close>; \<open>JsInfinity False\<close> is \<^verbatim>\<open>-Infinity\<close>.\<close>

fun js_negative :: "JsValue \<Rightarrow> bool" where
  "js_negative (JsFinite q) = (q < 0)"
| "js_negative (JsInfinity positive) = (\<not> positive)"
| "js_negative _ = False"

fun isInteger :: "JsValue \<Rightarrow> bool" where
  "isInteger (JsFinite q) = (of_int \<lfloor>q\<rfloor> = q)"
| "isInteger _ = False"

fun js_int :: "JsValue \<Rightarrow> int" where
  "js_int (JsFinite q) = \<lfloor>q\<rfloor>"
| "js_int _ = 0"

datatype DbError =
  ScoresMustBeValidNumbers
  | InvalidScoreNaN
  | ScoresMustBeNonNegativeIntegers
  | MatchNotFound

text \<open>\<^verbatim>\<open>Array.prototype.findIndex\<close>: the first index whose element satisfies the test;
  the source's \<^verbatim>\<open>-1\<close> is \<open>None\<close>.\<close>

fun findIndex :: "('a \<Rightarrow> bool) \<Rightarrow> 'a list \<Rightarrow> nat option" where
  "findIndex P [] = None"
| "findIndex P (x # xs) = (if P x then Some 0 else map_option Suc (findIndex P xs))"

definition updateMatch ::
  "string \<Rightarrow> JsValue \<Rightarrow> JsValue \<Rightarrow> Data \<Rightarrow> (DbError \<times> Data) + Data" where
  "updateMatch mid sA sB db =
     (if \<not> typeof_number sA \<or> \<not> typeof_number sB then Inl (ScoresMustBeValidNumbers, db)
      else if isNaN sA \<or> isNaN sB then Inl (InvalidScoreNaN, db)
      else if js_negative sA \<or> js_negative sB \<or> \<not> isInteger sA \<or> \<not> isInteger sB
        then Inl (ScoresMustBeNonNegativeIntegers, db)
      else case findIndex (\<lambda>m. m_id m = mid) (matches db) of
          None \<Rightarrow> Inl (MatchNotFound, db)
        | Some matchIndex \<Rightarrow>
            Inr (db\<lparr>matches := (matches db)[matchIndex :=
              (matches db ! matchIndex)\<lparr>scoreA := Some (js_int sA), scoreB := Some (js_int sB),
                 isCompleted := True\<rparr>]\<rparr>))"

definition undoMatchResult :: "string \<Rightarrow> Data \<Rightarrow> DbError + Data" where
  "undoMatchResult mid db =
     (case findIndex (\<lambda>m. m_id m = mid) (matches db) of
        None \<Rightarrow> Inl MatchNotFound
      | Some matchIndex \<Rightarrow>
          Inr (db\<lparr>matches := (matches db)[matchIndex :=
            (matches db ! matchIndex)\<lparr>isCompleted := False\<rparr>]\<rparr>))"

definition deleteTournament :: "string \<Rightarrow> Data \<Rightarrow> Data" where
  "deleteTournament tid db =
     db\<lparr>tournaments := filter (\<lambda>t. t_id t \<noteq> tid) (tournaments db),
        matches := filter (\<lambda>m. m_tournamentId m \<noteq> tid) (matches db),
        assignments := filter (\<lambda>a. a_tournamentId a \<noteq> tid) (assignments db),
        chatMessages := filter (\<lambda>c. c_tournamentId c \<noteq> Some tid) (chatMessages db)\<rparr>"

definition updateTournamentStatus :: "string \<Rightarrow> TournamentStatus \<Rightarrow> Data \<Rightarrow> Data" where
  "updateTournamentStatus tid st db =
     db\<lparr>tournaments := map (\<lambda>t. if t_id t = tid then t\<lparr>status := st\<rparr> else t) (tournaments db)\<rparr>"

definition resetTournamentSchedule :: "string \<Rightarrow> Data \<Rightarrow> Data" where
  "resetTournamentSchedule tid db =
     db\<lparr>tournaments := map (\<lambda>t. if t_id t = tid then t\<lparr>status := UPCOMING\<rparr> else t) (tournaments db),
        matches := filter (\<lambda>m. m_tournamentId m \<noteq> tid) (matches db),
        assignments := filter (\<lambda>a. a_tournamentId a \<noteq> tid) (assignments db)\<rparr>"

definition deployFixtures :: "string \<Rightarrow> Match list \<Rightarrow> Data \<Rightarrow> Data" where
  "deployFixtures tid ms db =
     db\<lparr>matches := matches db @ ms,
        tournaments := map (\<lambda>t. if t_id t = tid then t\<lparr>status := ACTIVE\<rparr> else t) (tournaments db)\<rparr>"

definition addMatches :: "Match list \<Rightarrow> Data \<Rightarrow> Data" where
  "addMatches batch db = db\<lparr>matches := matches db @ batch\<rparr>"

definition addAssignments :: "Assignment list \<Rightarrow> Data \<Rightarrow> Data" where
  "addAssignments batch db = db\<lparr>assignments := assignments db @ batch\<rparr>"

definition getMatches :: "string \<Rightarrow> Data \<Rightarrow> Match list" where
  "getMatches tid db = filter (\<lambda>m. m_tournamentId m = tid) (matches db)"

definition getAssignments :: "string \<Rightarrow> Data \<Rightarrow> Assignment list" where
  "getAssignments tid db = filter (\<lambda>a. a_tournamentId a = tid) (assignments db)"

definition getTournamentById :: "string \<Rightarrow> Data \<Rightarrow> Tournament option" where
  "getTournamentById tid db = find (\<lambda>t. t_id t = tid) (tournaments db)"

text \<open>
  The same file holds an older copy of the service (lines 250-404). Its \<^verbatim>\<open>updateMatch\<close>
  (lines 323-331) checks only that a match has the id and then sets the scores of every
  match with the id. It stores the scores as given; the model takes them as integers, the
  type of a stored score.
\<close>

definition updateMatch_legacy :: "string \<Rightarrow> int \<Rightarrow> int \<Rightarrow> Data \<Rightarrow> DbError + Data" where
  "updateMatch_legacy mid sA sB db =
     (case find (\<lambda>m. m_id m = mid) (matches db) of
        None \<Rightarrow> Inl MatchNotFound
      | Some found \<Rightarrow>
          Inr (db\<lparr>matches := map (\<lambda>m. if m_id m = mid
                                     then m\<lparr>scoreA := Some sA, scoreB := Some sB, isCompleted := True\<rparr>
                                     else m) (matches db)\<rparr>))"

text \<open>
  The service throws plain \<^verbatim>\<open>Error\<close>s told apart by their messages. The three messages
  about the scores (\<^verbatim>\<open>Scores must be valid numbers.\<close>, \<^verbatim>\<open>Invalid score value (NaN).\<close>,
  \<^verbatim>\<open>Scores must be non-negative integers.\<close>) are the validation errors;
  \<^verbatim>\<open>Match not found.\<close> is the not-found error.
\<close>

fun is_ValidationError :: "DbError \<Rightarrow> bool" where
  "is_ValidationError MatchNotFound = False"
| "is_ValidationError _ = True"

text \<open>A score that passes the three checks of \<^verbatim>\<open>updateMatch\<close>: a non-negative integer.\<close>

definition valid_score :: "JsValue \<Rightarrow> bool" where
  "valid_score v \<longleftrightarrow> typeof_number v \<and> \<not> isNaN v \<and> \<not> js_negative v \<and> isInteger v"

text \<open>The status of a tournament, and of the tournament that owns a match, as stored.\<close>

definition tournamentFinished :: "Data \<Rightarrow> string \<Rightarrow> bool" where
  "tournamentFinished db tid =
     (case getTournamentById tid db of None \<Rightarrow> False | Some t \<Rightarrow> status t = FINISHED)"

definition owningTournamentFinished :: "Data \<Rightarrow> string \<Rightarrow> bool" where
  "owningTournamentFinished db mid =
     (case find (\<lambda>m. m_id m = mid) (matches db) of
        None \<Rightarrow> False
      | Some m \<Rightarrow> tournamentFinished db (m_tournamentId m))"

section \<open>The standings (utils/logic.ts, calculateStandingsLogic)\<close>

subsection \<open>Numbers\<close>

text \<open>
  The counters and goal totals of a row are JavaScript numbers, the doubles of IEEE 754.
  The stored scores are integers, and a sum or difference of integer-valued doubles is an
  integer-valued double, an infinity, or \<^verbatim>\<open>NaN\<close> (\<^verbatim>\<open>Infinity - Infinity\<close>), so these are
  the numbers of the standings: \<open>Num n\<close> is the double of value \<open>n\<close>. (The two zeros of
  the doubles are one number here: no operation of the function tells them apart.)

  \<open>toDouble\<close> is the double nearest to an integer, the rounding of every arithmetic
  operation: an integer of magnitude up to \<open>2 ^ 53\<close> is a double; a larger one is cut to
  its 53 leading bits, rounded to the nearest and, half way, to the even one; and what
  rounds to \<open>2 ^ 1024\<close> or more is an infinity.
\<close>

function bitLength :: "int \<Rightarrow> nat" where
  "bitLength n = (if n \<le> 0 then 0 else Suc (bitLength (n div 2)))"
  by pat_completeness auto
termination
  by (relation "measure nat") auto

declare bitLength.simps [simp del]

definition roundMagnitude :: "int \<Rightarrow> int" where
  "roundMagnitude a =
     (if a \<le> 2 ^ 53 then a
      else let e = bitLength a - 53; q = a div 2 ^ e; r = a mod 2 ^ e; half = 2 ^ (e - 1)
           in (if half < r \<or> (r = half \<and> odd q) then q + 1 else q) * 2 ^ e)"

definition toDouble :: "int \<Rightarrow> JsNumber" where
  "toDouble n =
     (let a = roundMagnitude \<bar>n\<bar> in
      if 2 ^ 1024 \<le> a then (if n < 0 then NegInfinity else PosInfinity)
      else Num (if n < 0 then - a else a))"

text \<open>\<^verbatim>\<open>x + y\<close>, \<^verbatim>\<open>-x\<close>, \<^verbatim>\<open>x - y\<close> and \<^verbatim>\<open>x < y\<close> on numbers.\<close>

fun js_add :: "JsNumber \<Rightarrow> JsNumber \<Rightarrow> JsNumber" where
  "js_add (Num a) (Num b) = toDouble (a + b)"
| "js_add NaN y = NaN"
| "js_add x NaN = NaN"
| "js_add PosInfinity NegInfinity = NaN"
| "js_add NegInfinity PosInfinity = NaN"
| "js_add PosInfinity y = PosInfinity"
| "js_add x PosInfinity = PosInfinity"
| "js_add NegInfinity y = NegInfinity"
| "js_add x NegInfinity = NegInfinity"

fun js_neg :: "JsNumber \<Rightarrow> JsNumber" where
  "js_neg (Num a) = Num (- a)"
| "js_neg PosInfinity = NegInfinity"
| "js_neg NegInfinity = PosInfinity"
| "js_neg NaN = NaN"

definition js_sub :: "JsNumber \<Rightarrow> JsNumber \<Rightarrow> JsNumber" where
  "js_sub x y = js_add x (js_neg y)"

fun js_less :: "JsNumber \<Rightarrow> JsNumber \<Rightarrow> bool" where
  "js_less (Num a) (Num b) = (a < b)"
| "js_less NaN y = False"
| "js_less x NaN = False"
| "js_less x NegInfinity = False"
| "js_less PosInfinity y = False"
| "js_less NegInfinity y = True"
| "js_less x PosInfinity = True"

text \<open>A number is falsy when it is zero or \<^verbatim>\<open>NaN\<close>; \<^verbatim>\<open>x || y\<close> is \<^verbatim>\<open>x\<close> unless that is
  falsy.\<close>

definition truthyNumber :: "JsNumber \<Rightarrow> bool" where
  "truthyNumber x \<longleftrightarrow> x \<noteq> Num 0 \<and> x \<noteq> NaN"

definition js_or :: "JsNumber \<Rightarrow> JsNumber \<Rightarrow> JsNumber" where
  "js_or x y = (if truthyNumber x then x else y)"

text \<open>
  \<^verbatim>\<open>m.scoreA ?? 0\<close>: the score, or zero for \<^verbatim>\<open>null\<close>. A stored score is a number, so an
  integer that is no double stands for the double nearest to it.
\<close>

definition scoreNumber :: "int option \<Rightarrow> JsNumber" where
  "scoreNumber s = (case s of None \<Rightarrow> Num 0 | Some v \<Rightarrow> toDouble v)"

subsection \<open>The object statsMap\<close>

text \<open>
  \<^verbatim>\<open>statsMap\<close> is a plain object, created by \<^verbatim>\<open>{}\<close>, whose keys are participant ids. Its
  prototype is \<^verbatim>\<open>Object.prototype\<close>, and both the assignment \<^verbatim>\<open>statsMap[userId] = {...}\<close>
  and the lookup \<^verbatim>\<open>statsMap[m.playerAId]\<close> go through the prototype chain:

  \<^item> the assignment creates or replaces an own property for every key but \<^verbatim>\<open>__proto__\<close>,
    for which it calls the setter of \<^verbatim>\<open>Object.prototype\<close> and makes the new row the
    prototype of \<^verbatim>\<open>statsMap\<close>, creating no own property;

  \<^item> the lookup returns the own property of the key if there is one; otherwise the
    property of that name of the row installed as prototype (its \<^verbatim>\<open>id\<close>, its
    \<^verbatim>\<open>username\<close> or one of its seven numbers), if there is one; otherwise, for the key
    \<^verbatim>\<open>__proto__\<close>, the prototype of \<^verbatim>\<open>statsMap\<close> itself (the installed row, or
    \<^verbatim>\<open>Object.prototype\<close>); otherwise the method of \<^verbatim>\<open>Object.prototype\<close> of that name
    (\<^verbatim>\<open>constructor\<close>, \<^verbatim>\<open>toString\<close>, ...); otherwise \<^verbatim>\<open>undefined\<close>.

  So a lookup refers to an own row, to the row installed as prototype, to a built-in
  object (a method of \<^verbatim>\<open>Object.prototype\<close>, or \<^verbatim>\<open>Object.prototype\<close> itself), to a truthy
  primitive value (a non-empty string, a number other than zero and \<^verbatim>\<open>NaN\<close>), or to a
  falsy value (\<^verbatim>\<open>undefined\<close>, the empty string, zero, \<^verbatim>\<open>NaN\<close>). The built-in objects are
  those of the language: \<^verbatim>\<open>Object.prototype\<close> is taken to have no properties but its
  standard ones and those that this function itself gives it, which are \<^verbatim>\<open>NaN\<close> and so
  falsy like \<^verbatim>\<open>undefined\<close>.
\<close>

record StatsObject =
  ownRows :: "string \<rightharpoonup> StandingStat"
  protoRow :: "StandingStat option"

datatype StatsRef = OwnRow string | ProtoRow | BuiltinObject | PrimitiveValue | Falsy

definition objectPrototypeMethods :: "string list" where
  "objectPrototypeMethods =
     [''constructor'', ''hasOwnProperty'', ''isPrototypeOf'', ''propertyIsEnumerable'',
      ''toLocaleString'', ''toString'', ''valueOf'', ''__defineGetter__'', ''__defineSetter__'',
      ''__lookupGetter__'', ''__lookupSetter__'']"

definition valueRef :: "bool \<Rightarrow> StatsRef" where
  "valueRef t = (if t then PrimitiveValue else Falsy)"

definition rowProperty :: "StandingStat \<Rightarrow> string \<Rightarrow> StatsRef option" where
  "rowProperty r key =
     (if key = ''id'' then Some (valueRef (s_id r \<noteq> []))
      else if key = ''username'' then Some (valueRef (s_username r \<noteq> []))
      else if key = ''p'' then Some (valueRef (truthyNumber (s_p r)))
      else if key = ''w'' then Some (valueRef (truthyNumber (s_w r)))
      else if key = ''d'' then Some (valueRef (truthyNumber (s_d r)))
      else if key = ''l'' then Some (valueRef (truthyNumber (s_l r)))
      else if key = ''gf'' then Some (valueRef (truthyNumber (s_gf r)))
      else if key = ''ga'' then Some (valueRef (truthyNumber (s_ga r)))
      else if key = ''pts'' then Some (valueRef (truthyNumber (s_pts r)))
      else None)"

definition lookupStats :: "StatsObject \<Rightarrow> string \<Rightarrow> StatsRef" where
  "lookupStats S key =
     (if ownRows S key \<noteq> None then OwnRow key
      else case (case protoRow S of None \<Rightarrow> None | Some r \<Rightarrow> rowProperty r key) of
          Some v \<Rightarrow> v
        | None \<Rightarrow>
            if key = ''__proto__'' then (if protoRow S = None then BuiltinObject else ProtoRow)
            else if key \<in> set objectPrototypeMethods then BuiltinObject
            else Falsy)"

definition newRow :: "User list \<Rightarrow> string \<Rightarrow> StandingStat" where
  "newRow allUsers userId =
     \<lparr>s_id = userId,
      s_username = (case find (\<lambda>u. u_id u = userId) allUsers of
                      Some user \<Rightarrow> u_username user | None \<Rightarrow> ''Unknown User''),
      s_p = Num 0, s_w = Num 0, s_d = Num 0, s_l = Num 0, s_gf = Num 0, s_ga = Num 0,
      s_pts = Num 0\<rparr>"

definition initStats :: "User list \<Rightarrow> string list \<Rightarrow> StatsObject" where
  "initStats allUsers participants =
     foldl (\<lambda>S userId.
              if userId = ''__proto__'' then S\<lparr>protoRow := Some (newRow allUsers userId)\<rparr>
              else S\<lparr>ownRows := (ownRows S)(userId \<mapsto> newRow allUsers userId)\<rparr>)
       \<lparr>ownRows = Map.empty, protoRow = None\<rparr> participants"

text \<open>
  \<^verbatim>\<open>sA.p++\<close> changes the object that \<^verbatim>\<open>sA\<close> refers to: the own row or the row installed
  as prototype. On a built-in object it creates or changes a property of that object,
  which no row and no later lookup of this function sees. When both players of a match
  are the same id, \<^verbatim>\<open>sA\<close> and \<^verbatim>\<open>sB\<close> are the same object; applying the assignments one
  after the other gives each of them its effect on that one object.
\<close>

fun bump :: "StatsRef \<Rightarrow> (StandingStat \<Rightarrow> StandingStat) \<Rightarrow> StatsObject \<Rightarrow> StatsObject" where
  "bump (OwnRow k) f S =
     (case ownRows S k of None \<Rightarrow> S | Some s \<Rightarrow> S\<lparr>ownRows := (ownRows S)(k \<mapsto> f s)\<rparr>)"
| "bump ProtoRow f S = S\<lparr>protoRow := map_option f (protoRow S)\<rparr>"
| "bump BuiltinObject f S = S"
| "bump PrimitiveValue f S = S"
| "bump Falsy f S = S"

text \<open>
  The body of the \<^verbatim>\<open>forEach\<close> over the completed matches, statement by statement. The
  file is a module, and module code is strict: the assignment \<^verbatim>\<open>sA.p++\<close> to a property of
  a primitive value throws a \<^verbatim>\<open>TypeError\<close>, for which the result is \<open>None\<close>.
\<close>

definition applyResult :: "Match \<Rightarrow> StatsObject \<Rightarrow> StatsObject option" where
  "applyResult m S =
     (let sA = lookupStats S (playerAId m); sB = lookupStats S (playerBId m) in
      if sA = Falsy \<or> sB = Falsy then Some S
      else if sA = PrimitiveValue \<or> sB = PrimitiveValue then None
      else
        let scA = scoreNumber (scoreA m);
            scB = scoreNumber (scoreB m);
            S1 = bump sB (\<lambda>s. s\<lparr>s_p := js_add (s_p s) (Num 1)\<rparr>)
                   (bump sA (\<lambda>s. s\<lparr>s_p := js_add (s_p s) (Num 1)\<rparr>) S);
            S2 = bump sA (\<lambda>s. s\<lparr>s_ga := js_add (s_ga s) scB\<rparr>)
                   (bump sA (\<lambda>s. s\<lparr>s_gf := js_add (s_gf s) scA\<rparr>) S1);
            S3 = bump sB (\<lambda>s. s\<lparr>s_ga := js_add (s_ga s) scA\<rparr>)
                   (bump sB (\<lambda>s. s\<lparr>s_gf := js_add (s_gf s) scB\<rparr>) S2)
        in Some
          (if js_less scB scA then
             bump sB (\<lambda>s. s\<lparr>s_l := js_add (s_l s) (Num 1)\<rparr>)
               (bump sA (\<lambda>s. s\<lparr>s_pts := js_add (s_pts s) (Num 3)\<rparr>)
                 (bump sA (\<lambda>s. s\<lparr>s_w := js_add (s_w s) (Num 1)\<rparr>) S3))
           else if js_less scA scB then
             bump sA (\<lambda>s. s\<lparr>s_l := js_add (s_l s) (Num 1)\<rparr>)
               (bump sB (\<lambda>s. s\<lparr>s_pts := js_add (s_pts s) (Num 3)\<rparr>)
                 (bump sB (\<lambda>s. s\<lparr>s_w := js_add (s_w s) (Num 1)\<rparr>) S3))
           else
             bump sB (\<lambda>s. s\<lparr>s_pts := js_add (s_pts s) (Num 1)\<rparr>)
               (bump sA (\<lambda>s. s\<lparr>s_pts := js_add (s_pts s) (Num 1)\<rparr>)
                 (bump sB (\<lambda>s. s\<lparr>s_d := js_add (s_d s) (Num 1)\<rparr>)
                   (bump sA (\<lambda>s. s\<lparr>s_d := js_add (s_d s) (Num 1)\<rparr>) S3)))))"

fun forEachMatch :: "Match list \<Rightarrow> StatsObject \<Rightarrow> StatsObject option" where
  "forEachMatch [] S = Some S"
| "forEachMatch (m # ms) S =
     (case applyResult m S of None \<Rightarrow> None | Some S' \<Rightarrow> forEachMatch ms S')"

subsection \<open>The ranked table\<close>

text \<open>
  \<^verbatim>\<open>Object.values\<close> lists the values in the order of the object's own keys: first the keys
  that are array indices (the canonical decimal numerals of 0 to 4294967294) in ascending
  numeric order, then the other keys in the order of their creation; assigning to an
  existing key keeps its place.
\<close>

definition is_digit :: "char \<Rightarrow> bool" where
  "is_digit c \<longleftrightarrow> c \<in> set ''0123456789''"

definition int_of_decimal :: "string \<Rightarrow> int" where
  "int_of_decimal s = foldl (\<lambda>n c. 10 * n + (of_char c - 48)) 0 s"

definition is_array_index :: "string \<Rightarrow> bool" where
  "is_array_index s \<longleftrightarrow>
     s \<noteq> [] \<and> (\<forall>c \<in> set s. is_digit c) \<and> (s = ''0'' \<or> hd s \<noteq> CHR ''0'')
     \<and> int_of_decimal s < 4294967295"

definition ownKeys :: "string list \<Rightarrow> string list" where
  "ownKeys created =
     (let ks = rev (remdups (rev created))
      in sort_key int_of_decimal (filter is_array_index ks) @ filter (\<lambda>k. \<not> is_array_index k) ks)"

text \<open>
  The comparator \<^verbatim>\<open>b.pts - a.pts || (b.gf - b.ga) - (a.gf - a.ga) || b.gf - a.gf\<close>.
  \<^verbatim>\<open>Array.prototype.sort\<close> reads of its result the sign, taking \<^verbatim>\<open>NaN\<close> for zero. The sort
  is stable, and for a consistent comparator, as this one is on exact totals (it orders by
  the triple of points, goal difference and goals for), the sorted array is the one a
  stable insertion sort returns; for an inconsistent comparator the language leaves the
  order to the implementation.
\<close>

definition compareStandings :: "StandingStat \<Rightarrow> StandingStat \<Rightarrow> JsNumber" where
  "compareStandings a b =
     js_or (js_sub (s_pts b) (s_pts a))
       (js_or (js_sub (js_sub (s_gf b) (s_ga b)) (js_sub (s_gf a) (s_ga a)))
          (js_sub (s_gf b) (s_gf a)))"

fun sortSign :: "JsNumber \<Rightarrow> int" where
  "sortSign (Num n) = n"
| "sortSign PosInfinity = 1"
| "sortSign NegInfinity = - 1"
| "sortSign NaN = 0"

fun insertSorted :: "('a \<Rightarrow> 'a \<Rightarrow> int) \<Rightarrow> 'a \<Rightarrow> 'a list \<Rightarrow> 'a list" where
  "insertSorted cmp x [] = [x]"
| "insertSorted cmp x (y # ys) = (if cmp x y \<le> 0 then x # y # ys else y # insertSorted cmp x ys)"

definition stableSort :: "('a \<Rightarrow> 'a \<Rightarrow> int) \<Rightarrow> 'a list \<Rightarrow> 'a list" where
  "stableSort cmp xs = foldr (insertSorted cmp) xs []"

datatype StandingsError = TypeError

definition calculateStandingsLogic ::
  "string list \<Rightarrow> Match list \<Rightarrow> User list \<Rightarrow> Assignment list \<Rightarrow> GlobalTeam list \<Rightarrow> bool
     \<Rightarrow> StandingsError + StandingStat list" where
  "calculateStandingsLogic participants ms allUsers allAssignments gTeams isUsersOnly =
     (case forEachMatch (filter isCompleted ms) (initStats allUsers participants) of
        None \<Rightarrow> Inl TypeError
      | Some statsMap \<Rightarrow>
          Inr (stableSort (\<lambda>a b. sortSign (compareStandings a b))
                 (List.map_filter (ownRows statsMap)
                    (ownKeys (filter (\<lambda>k. k \<noteq> ''__proto__'') participants)))))"

subsection \<open>Exact totals\<close>




text \<open>
  For the proofs, while the prototype of \<^verbatim>\<open>statsMap\<close> is \<^verbatim>\<open>Object.prototype\<close> (no roster
  member is called \<^verbatim>\<open>__proto__\<close>): a lookup then finds an own row, a built-in object, or
  nothing (\<open>found\<close>). \<open>jsCreditA\<close> is the assignments of the body to \<^verbatim>\<open>sA\<close> and
  \<open>jsCreditB\<close> those to \<^verbatim>\<open>sB\<close>, each as one function on rows, and \<open>applyPlain\<close> is the
  effect of the body on the own rows.
\<close>

definition builtinKey :: "string \<Rightarrow> bool" where
  "builtinKey k \<longleftrightarrow> k = ''__proto__'' \<or> k \<in> set objectPrototypeMethods"

definition found :: "(string \<rightharpoonup> StandingStat) \<Rightarrow> string \<Rightarrow> bool" where
  "found R k \<longleftrightarrow> R k \<noteq> None \<or> builtinKey k"












section \<open>The fixture generator (utils/logic.ts, generateFixturesAlgorithm)\<close>

text \<open>
  Match ids are drawn from \<^verbatim>\<open>Math.random()\<close>. The model takes the sequence of ids drawn
  as its first argument: \<open>ids k\<close> is the id of the \<open>k\<close>-th call, counted from zero. The
  first leg draws one id per match pushed, in the order of the pushes, and the second leg
  the following ones.

  \<^verbatim>\<open>...(teamA ? { teamAId: teamA } : {})\<close> sets the optional field only for a truthy
  value: neither for \<^verbatim>\<open>undefined\<close> nor for the empty string.
\<close>

definition truthy :: "string option \<Rightarrow> string option" where
  "truthy v = (case v of None \<Rightarrow> None | Some s \<Rightarrow> if s = [] then None else Some s)"

text \<open>
  \<^verbatim>\<open>rotation.splice(1, 0, rotation.pop()!)\<close>: the last element is removed and inserted
  at index 1 (at the end when only one element was left). The loop runs
  \<^verbatim>\<open>numPlayers - 1\<close> times, so the statement is never reached with an empty array,
  for which \<^verbatim>\<open>pop()\<close> would return \<^verbatim>\<open>undefined\<close>.
\<close>

definition rotateStep :: "string list \<Rightarrow> string list" where
  "rotateStep rotation =
     (if rotation = [] then []
      else let popped = last rotation; rest = butlast rotation
           in take 1 rest @ [popped] @ drop 1 rest)"

text \<open>
  The body of the inner loop for pair index \<open>i\<close> of round \<open>rnd\<close> (the source's
  \<^verbatim>\<open>round\<close>, which names a constant of HOL). Both reads of \<^verbatim>\<open>rotation\<close> are in
  range: the array keeps the length \<^verbatim>\<open>numPlayers\<close> and \<open>i < numPlayers div 2\<close>.
\<close>

definition pairStep ::
  "(nat \<Rightarrow> string) \<Rightarrow> string \<Rightarrow> Assignment list \<Rightarrow> bool \<Rightarrow> string list \<Rightarrow> nat \<Rightarrow> nat \<Rightarrow> nat
     \<Rightarrow> Match list \<Rightarrow> Match list" where
  "pairStep ids tournamentId asgs isUsersOnly rotation numPlayers rnd i firstHalf =
     (let p1 = rotation ! i; p2 = rotation ! (numPlayers - 1 - i) in
      if p1 \<noteq> ''GHOST'' \<and> p2 \<noteq> ''GHOST'' then
        let swap = ((rnd + i) mod 2 = 0);
            playerA = (if swap then p2 else p1);
            playerB = (if swap then p1 else p2);
            teamA = (if isUsersOnly then None
                     else map_option teamId (find (\<lambda>a. a_userId a = playerA) asgs));
            teamB = (if isUsersOnly then None
                     else map_option teamId (find (\<lambda>a. a_userId a = playerB) asgs))
        in firstHalf @
           [\<lparr>m_id = ids (length firstHalf), m_tournamentId = tournamentId, matchday = rnd + 1,
             playerAId = playerA, playerBId = playerB,
             teamAId = truthy teamA, teamBId = truthy teamB,
             scoreA = None, scoreB = None, isCompleted = False,
             isSimulated = None, history = None\<rparr>]
      else firstHalf)"

text \<open>
  One round: the inner loop over \<^verbatim>\<open>i < numPlayers / 2\<close>, then the rotation. The state is
  the pair of \<^verbatim>\<open>rotation\<close> and \<^verbatim>\<open>firstHalf\<close>. \<^verbatim>\<open>numPlayers\<close> is even (an odd roster is
  padded), so the bound is \<open>numPlayers div 2\<close>.
\<close>

definition roundStep ::
  "(nat \<Rightarrow> string) \<Rightarrow> string \<Rightarrow> Assignment list \<Rightarrow> bool \<Rightarrow> nat \<Rightarrow> nat
     \<Rightarrow> string list \<times> Match list \<Rightarrow> string list \<times> Match list" where
  "roundStep ids tournamentId asgs isUsersOnly numPlayers rnd state =
     (case state of (rotation, firstHalf) \<Rightarrow>
        (rotateStep rotation,
         fold (pairStep ids tournamentId asgs isUsersOnly rotation numPlayers rnd)
           [0..<numPlayers div 2] firstHalf))"

definition secondLeg :: "(nat \<Rightarrow> string) \<Rightarrow> nat \<Rightarrow> nat \<Rightarrow> Match \<Rightarrow> Match" where
  "secondLeg ids rounds k m =
     \<lparr>m_id = ids k, m_tournamentId = m_tournamentId m, matchday = matchday m + rounds,
      playerAId = playerBId m, playerBId = playerAId m,
      teamAId = truthy (teamBId m), teamBId = truthy (teamAId m),
      scoreA = None, scoreB = None, isCompleted = False, isSimulated = None, history = None\<rparr>"

text \<open>
  \<^verbatim>\<open>rounds = numPlayers - 1\<close> is \<open>-1\<close> for an empty roster, for which neither loop
  runs; the truncating subtraction on \<open>nat\<close> gives 0 there, with the same result.
\<close>

definition generateFixturesAlgorithm ::
  "(nat \<Rightarrow> string) \<Rightarrow> string \<Rightarrow> string list \<Rightarrow> Assignment list \<Rightarrow> bool \<Rightarrow> Match list" where
  "generateFixturesAlgorithm ids tournamentId participants asgs isUsersOnly =
     (let players = participants;
          isOdd = (length players mod 2 \<noteq> 0);
          fixturePlayers = (if isOdd then players @ [''GHOST''] else players);
          numPlayers = length fixturePlayers;
          rounds = numPlayers - 1;
          firstHalf = snd (fold (roundStep ids tournamentId asgs isUsersOnly numPlayers)
                             [0..<rounds] (fixturePlayers, []));
          secondHalf = map (\<lambda>(k, m). secondLeg ids rounds (length firstHalf + k) m)
                         (enumerate 0 firstHalf)
      in firstHalf @ secondHalf)"

text \<open>
  Names for parts of the generator: the padded roster \<^verbatim>\<open>fixturePlayers\<close>, the array
  \<^verbatim>\<open>rotation\<close> at the start of a round, and a fixture reduced to its matchday, its home
  side (\<^verbatim>\<open>playerAId\<close>) and its away side (\<^verbatim>\<open>playerBId\<close>).
\<close>

definition fixturePlayers :: "string list \<Rightarrow> string list" where
  "fixturePlayers participants =
     (if length participants mod 2 \<noteq> 0 then participants @ [''GHOST''] else participants)"

definition rotationAt :: "string list \<Rightarrow> nat \<Rightarrow> string list" where
  "rotationAt participants rnd = (rotateStep ^^ rnd) (fixturePlayers participants)"

definition fx :: "Match \<Rightarrow> nat \<times> string \<times> string" where
  "fx m = (matchday m, playerAId m, playerBId m)"

definition sides :: "Match \<Rightarrow> string \<times> string" where
  "sides m = (playerAId m, playerBId m)"

text \<open>
  For the proofs: the fixtures of one round and of the first leg in closed form, the
  second-leg image of a fixture, the ordered pairs of distinct roster members, and the
  index arithmetic of the rotation (\<open>src m r p\<close> is the index in the padded roster of the
  entry that stands at position \<open>p\<close> after \<open>r\<close> rotations, for a roster of \<open>m + 1\<close>
  entries and \<open>r \<le> m\<close>).
\<close>

definition roundPairs :: "string list \<Rightarrow> nat \<Rightarrow> (nat \<times> string \<times> string) list" where
  "roundPairs rotation rnd =
     map (\<lambda>i. if even (rnd + i)
              then (rnd + 1, rotation ! (length rotation - 1 - i), rotation ! i)
              else (rnd + 1, rotation ! i, rotation ! (length rotation - 1 - i)))
       (filter (\<lambda>i. rotation ! i \<noteq> ''GHOST'' \<and> rotation ! (length rotation - 1 - i) \<noteq> ''GHOST'')
          [0..<length rotation div 2])"

definition firstLeg :: "string list \<Rightarrow> (nat \<times> string \<times> string) list" where
  "firstLeg participants =
     concat (map (\<lambda>rnd. roundPairs (rotationAt participants rnd) rnd)
       [0..<length (fixturePlayers participants) - 1])"

definition returnFixture :: "nat \<Rightarrow> nat \<times> string \<times> string \<Rightarrow> nat \<times> string \<times> string" where
  "returnFixture rounds f = (case f of (d, a, b) \<Rightarrow> (d + rounds, b, a))"

definition pairings :: "string list \<Rightarrow> (string \<times> string) set" where
  "pairings ps = {(a, b). a \<in> set ps \<and> b \<in> set ps \<and> a \<noteq> b}"

definition origin :: "nat \<Rightarrow> nat \<Rightarrow> nat \<Rightarrow> nat" where
  "origin m r j = (if r \<le> j then j - r else m + j - r)"

definition src :: "nat \<Rightarrow> nat \<Rightarrow> nat \<Rightarrow> nat" where
  "src m r p = (if p = 0 then 0 else Suc (origin m r (p - 1)))"
text \<open>A sequence of ids for the examples: \<^verbatim>\<open>x\<close>, \<^verbatim>\<open>xx\<close>, \<^verbatim>\<open>xxx\<close>, ...\<close>

definition seq_ids :: "nat \<Rightarrow> string" where
  "seq_ids k = replicate (Suc k) CHR ''x''"

section \<open>The lottery draw (components/TournamentDetail.tsx, runLottery)\<close>

text \<open>
  \<^verbatim>\<open>db.log\<close> of the local-storage service: a new entry at the head of the audit log,
  which is cut to its first 100 entries. The entry's id (\<^verbatim>\<open>Math.random()\<close>) and time
  stamp (\<^verbatim>\<open>new Date()\<close>) are arguments of the model. (\<open>log\<close> names the logarithm in HOL.)
\<close>

definition db_log :: "string \<Rightarrow> string \<Rightarrow> string \<Rightarrow> string \<Rightarrow> string \<Rightarrow> Data \<Rightarrow> Data" where
  "db_log newId now userId act dets db =
     (let logs = \<lparr>l_id = newId, l_userId = userId, action = act, l_timestamp = now,
                   details = dets\<rparr> # auditLogs db
      in db\<lparr>auditLogs := (if length logs > 100 then take 100 logs else logs)\<rparr>)"

text \<open>
  \<^verbatim>\<open>runLottery\<close> is a function of the component: it reads the component's copy of the
  tournament (\<^verbatim>\<open>localTournament\<close>) and of the team list (\<^verbatim>\<open>globalTeams\<close>) and writes to
  the service. It ends in one of three ways: it returns at once because the tournament is
  not upcoming, it alerts \<^verbatim>\<open>Draw pool too small. Need at least N teams.\<close>, or it commits
  the draw.

  The pool is shuffled by \<^verbatim>\<open>.sort(() => Math.random() - 0.5)\<close>, which leaves the array in
  some order of its elements; the model takes the shuffle as an argument, and the theorems
  assume of it only that it returns a permutation of its argument. The assignment ids are
  drawn like the match ids above. \<^verbatim>\<open>pool[idx]\<close> is read in range: \<open>idx\<close> is less than
  the number of participants, which the guard has compared with the length of the pool.
\<close>

datatype LotteryOutcome = LotteryIgnored | DrawPoolTooSmall nat | LotteryCommitted

definition drawPool :: "Tournament \<Rightarrow> GlobalTeam list \<Rightarrow> GlobalTeam list" where
  "drawPool localTournament gTeams =
     filter (\<lambda>t. g_id t \<in> set (selectedTeamIds localTournament)) gTeams"

definition runLottery ::
  "(GlobalTeam list \<Rightarrow> GlobalTeam list) \<Rightarrow> (nat \<Rightarrow> string) \<Rightarrow> string \<Rightarrow> string \<Rightarrow> string
     \<Rightarrow> Tournament \<Rightarrow> GlobalTeam list \<Rightarrow> Data \<Rightarrow> LotteryOutcome \<times> Data" where
  "runLottery shuffle ids logId now currentUserId localTournament gTeams db =
     (if status localTournament \<noteq> UPCOMING then (LotteryIgnored, db)
      else
        let participantsCount = length (participantUserIds localTournament);
            pool = shuffle (drawPool localTournament gTeams)
        in if length pool < participantsCount then (DrawPoolTooSmall participantsCount, db)
           else
             let db1 = resetTournamentSchedule (t_id localTournament) db;
                 newAssignments =
                   map (\<lambda>(idx, uid).
                          \<lparr>a_id = ids idx, a_tournamentId = t_id localTournament,
                           a_userId = uid, teamId = g_id (pool ! idx)\<rparr>)
                     (enumerate 0 (participantUserIds localTournament));
                 db2 = addAssignments newAssignments db1
             in (LotteryCommitted,
                 db_log logId now currentUserId ''LOTTERY_COMMIT''
                   (''Fair-draw logic applied to '' @ t_name localTournament) db2))"

section \<open>The Firestore DatabaseService: deleting a tournament\<close>

text \<open>
  The second service keeps the same eight collections in Firestore, one document per
  record under the record's id, so \<open>Data\<close> describes its store as well. A query reads a
  collection; \<^verbatim>\<open>where("tournamentId", "==", id)\<close> keeps the documents of a tournament;
  \<^verbatim>\<open>orderBy("timestamp", "asc"), limit(100)\<close> sorts by the time stamp (strings compare
  byte by byte, equal time stamps by document id) and keeps the first 100 documents.
\<close>

fun compareStrings :: "string \<Rightarrow> string \<Rightarrow> int" where
  "compareStrings [] [] = 0"
| "compareStrings [] (y # ys) = - 1"
| "compareStrings (x # xs) [] = 1"
| "compareStrings (x # xs) (y # ys) =
     (if (of_char x :: nat) < of_char y then - 1
      else if (of_char y :: nat) < of_char x then 1
      else compareStrings xs ys)"

definition compareChat :: "ChatMessage \<Rightarrow> ChatMessage \<Rightarrow> int" where
  "compareChat a b =
     (if compareStrings (c_timestamp a) (c_timestamp b) \<noteq> 0
      then compareStrings (c_timestamp a) (c_timestamp b)
      else compareStrings (c_id a) (c_id b))"

definition fs_getMatches :: "string \<Rightarrow> Data \<Rightarrow> Match list" where
  "fs_getMatches tournamentId db = filter (\<lambda>m. m_tournamentId m = tournamentId) (matches db)"

definition fs_getAssignments :: "string \<Rightarrow> Data \<Rightarrow> Assignment list" where
  "fs_getAssignments tournamentId db =
     filter (\<lambda>a. a_tournamentId a = tournamentId) (assignments db)"

text \<open>
  \<^verbatim>\<open>getChat(tournamentId?)\<close>: the query is the same with and without a tournament id; the
  messages of the tournament (or, for a missing or empty id, the messages without one) are
  then filtered out of its at most 100 results.
\<close>

definition fs_getChat :: "string \<Rightarrow> Data \<Rightarrow> ChatMessage list" where
  "fs_getChat tournamentId db =
     (let msgs = take 100 (stableSort compareChat (chatMessages db))
      in if tournamentId \<noteq> [] then filter (\<lambda>m. c_tournamentId m = Some tournamentId) msgs
         else filter (\<lambda>m. c_tournamentId m = None \<or> c_tournamentId m = Some []) msgs)"

text \<open>
  A document reference is a collection and a document id; \<^verbatim>\<open>batch.delete(ref)\<close> removes
  that document. \<^verbatim>\<open>processBatchDelete\<close> commits the deletions in batches of 400.
\<close>

datatype DocRef = MatchRef string | AssignmentRef string | ChatRef string

fun batchDelete :: "DocRef \<Rightarrow> Data \<Rightarrow> Data" where
  "batchDelete (MatchRef i) db = db\<lparr>matches := filter (\<lambda>m. m_id m \<noteq> i) (matches db)\<rparr>"
| "batchDelete (AssignmentRef i) db = db\<lparr>assignments := filter (\<lambda>a. a_id a \<noteq> i) (assignments db)\<rparr>"
| "batchDelete (ChatRef i) db = db\<lparr>chatMessages := filter (\<lambda>c. c_id c \<noteq> i) (chatMessages db)\<rparr>"

function processBatchDelete :: "DocRef list \<Rightarrow> Data \<Rightarrow> Data" where
  "processBatchDelete refs db =
     (if refs = [] then db
      else processBatchDelete (drop 400 refs) (fold batchDelete (take 400 refs) db))"
  by pat_completeness auto
termination
  by (relation "measure (\<lambda>(refs, db). length refs)") auto

definition fs_deleteTournament :: "string \<Rightarrow> Data \<Rightarrow> Data" where
  "fs_deleteTournament tid db =
     (let db1 = db\<lparr>tournaments := filter (\<lambda>t. t_id t \<noteq> tid) (tournaments db)\<rparr>;
          ms = fs_getMatches tid db1;
          asgs = fs_getAssignments tid db1;
          chat = fs_getChat tid db1;
          allOps = map (\<lambda>m. MatchRef (m_id m)) ms @ map (\<lambda>a. AssignmentRef (a_id a)) asgs
                     @ map (\<lambda>c. ChatRef (c_id c)) chat
      in processBatchDelete allOps db1)"

section \<open>Sample data\<close>

text \<open>
  A store with one tournament \<^verbatim>\<open>t1\<close> of two managers, its two fixtures (the second
  one recorded 2-1), one assignment, one chat message of the tournament, and one match,
  one assignment and one chat message of another tournament \<^verbatim>\<open>t2\<close>. The theorems
  below are instantiated on it.
\<close>

definition sample_tournament :: "string \<Rightarrow> TournamentStatus \<Rightarrow> Tournament" where
  "sample_tournament tid st =
     \<lparr>t_id = tid, t_name = ''Cup'', t_type = USERS_ONLY, startDate = ''2024-01-01'',
      status = st, description = None, t_createdAt = ''2024-01-01'',
      participantUserIds = [''u1'', ''u2''], selectedTeamIds = []\<rparr>"

definition sample_match :: "string \<Rightarrow> string \<Rightarrow> nat \<Rightarrow> string \<Rightarrow> string \<Rightarrow> Match" where
  "sample_match mid tid day a b =
     \<lparr>m_id = mid, m_tournamentId = tid, matchday = day, playerAId = a, playerBId = b,
      teamAId = None, teamBId = None, scoreA = None, scoreB = None, isCompleted = False,
      isSimulated = None, history = None\<rparr>"

definition sample_assignment :: "string \<Rightarrow> string \<Rightarrow> Assignment" where
  "sample_assignment aid tid = \<lparr>a_id = aid, a_tournamentId = tid, a_userId = ''u1'', teamId = ''team-1''\<rparr>"

definition sample_chat :: "string \<Rightarrow> string option \<Rightarrow> ChatMessage" where
  "sample_chat cid tid =
     \<lparr>c_id = cid, c_userId = ''u1'', c_username = ''Striker99'', c_role = MEMBER,
      c_text = ''hello'', c_timestamp = ''2024-01-02'', c_tournamentId = tid\<rparr>"

definition sample_data :: "TournamentStatus \<Rightarrow> Data" where
  "sample_data st =
     \<lparr>users = [], invitationCodes = [], globalTeams = [],
      tournaments = [sample_tournament ''t1'' st, sample_tournament ''t2'' ACTIVE],
      assignments = [sample_assignment ''a1'' ''t1'', sample_assignment ''a2'' ''t2''],
      matches = [sample_match ''m1'' ''t1'' 1 ''u2'' ''u1'',
                 (sample_match ''m2'' ''t1'' 2 ''u1'' ''u2'')
                   \<lparr>scoreA := Some 2, scoreB := Some 1, isCompleted := True\<rparr>,
                 sample_match ''m3'' ''t2'' 1 ''u2'' ''u1''],
      auditLogs = [],
      chatMessages = [sample_chat ''c1'' (Some ''t1''), sample_chat ''c2'' (Some ''t2''),
                      sample_chat ''c3'' None]\<rparr>"

text \<open>
  A season of the managers \<^verbatim>\<open>u1\<close>, \<^verbatim>\<open>u2\<close> and \<^verbatim>\<open>u3\<close> with three completed matches
  and an open one, and three completed matches of \<^verbatim>\<open>u1\<close> against \<^verbatim>\<open>u2\<close> of which the
  first has the score \<open>2 ^ 53\<close> to nil. \<open>zero_row\<close> is the row of a manager who has not
  played and is not among the users.
\<close>

definition played :: "Match \<Rightarrow> int \<Rightarrow> int \<Rightarrow> Match" where
  "played m a b = m\<lparr>scoreA := Some a, scoreB := Some b, isCompleted := True\<rparr>"



definition zero_row :: "string \<Rightarrow> StandingStat" where
  "zero_row uid =
     \<lparr>s_id = uid, s_username = ''Unknown User'', s_p = Num 0, s_w = Num 0, s_d = Num 0,
      s_l = Num 0, s_gf = Num 0, s_ga = Num 0, s_pts = Num 0\<rparr>"

text \<open>
  Three global teams and a lottery tournament of the managers \<^verbatim>\<open>u1\<close> and \<^verbatim>\<open>u2\<close> with a
  given status and draw pool.
\<close>

definition sample_team :: "string \<Rightarrow> GlobalTeam" where
  "sample_team gid =
     \<lparr>g_id = gid, g_name = gid, g_type = CLUB, logo = None, g_isActive = True,
      g_createdAt = ''2024-01-01'', updatedAt = ''2024-01-01''\<rparr>"

definition sample_teams :: "GlobalTeam list" where
  "sample_teams = [sample_team ''team-1'', sample_team ''team-2'', sample_team ''team-3'']"

definition lottery_tournament :: "TournamentStatus \<Rightarrow> string list \<Rightarrow> Tournament" where
  "lottery_tournament st pool =
     (sample_tournament ''t1'' st)\<lparr>t_type := LOTTERY, selectedTeamIds := pool\<rparr>"

text \<open>
  A store whose chat holds 100 messages of the lobby (no tournament id), all older than the
  one message of the tournament \<^verbatim>\<open>t1\<close>.
\<close>

definition lobby_chat :: "nat \<Rightarrow> ChatMessage" where
  "lobby_chat k =
     \<lparr>c_id = replicate (Suc k) CHR ''g'', c_userId = ''u1'', c_username = ''Striker99'',
      c_role = MEMBER, c_text = ''hello'', c_timestamp = ''2024-01-01'', c_tournamentId = None\<rparr>"

definition busy_store :: Data where
  "busy_store =
     \<lparr>users = [], invitationCodes = [], globalTeams = [],
      tournaments = [sample_tournament ''t1'' ACTIVE],
      assignments = [sample_assignment ''a1'' ''t1''],
      matches = [sample_match ''m1'' ''t1'' 1 ''u2'' ''u1''],
      auditLogs = [],
      chatMessages = map lobby_chat [0..<100] @ [sample_chat ''c1'' (Some ''t1'')]\<rparr>"

section \<open>Lemmas on findIndex\<close>

lemma findIndex_None_iff: "findIndex P xs = None \<longleftrightarrow> (\<forall>x \<in> set xs. \<not> P x)"
  by (induction xs) auto

lemma findIndex_Some_bound: "findIndex P xs = Some i \<Longrightarrow> i < length xs \<and> P (xs ! i)"
  by (induction xs arbitrary: i) (auto split: if_splits)

lemma findIndex_Some_first: "findIndex P xs = Some i \<Longrightarrow> j < i \<Longrightarrow> \<not> P (xs ! j)"
proof (induction xs arbitrary: i j)
  case Nil
  then show ?case by simp
next
  case (Cons x xs)
  then show ?case
    by (cases j) (auto split: if_splits)
qed

lemma findIndex_exists: "\<exists>x \<in> set xs. P x \<Longrightarrow> \<exists>i. findIndex P xs = Some i"
  using findIndex_None_iff [of P xs] by (cases "findIndex P xs") auto

section \<open>Undoing a result (services/db.ts, lines 104-112)\<close>

text \<open>
  C10. \<^verbatim>\<open>undoMatchResult\<close> of the local-storage service, called with the id of a stored
  match, succeeds; the match it changes is the first one with that id, of which only
  \<^verbatim>\<open>isCompleted\<close> changes, to false (the two scores and every other field keep their
  values); every other match of the store, and every other collection, is as before.
\<close>

theorem undoMatchResult_frame:
  assumes "\<exists>m \<in> set (matches db). m_id m = mid"
  shows "\<exists>i db'. undoMatchResult mid db = Inr db'
           \<and> findIndex (\<lambda>m. m_id m = mid) (matches db) = Some i
           \<and> i < length (matches db)
           \<and> m_id (matches db ! i) = mid
           \<and> length (matches db') = length (matches db)
           \<and> matches db' ! i = (matches db ! i)\<lparr>isCompleted := False\<rparr>
           \<and> isCompleted (matches db' ! i) = False
           \<and> scoreA (matches db' ! i) = scoreA (matches db ! i)
           \<and> scoreB (matches db' ! i) = scoreB (matches db ! i)
           \<and> (\<forall>j < length (matches db). j \<noteq> i \<longrightarrow> matches db' ! j = matches db ! j)
           \<and> db' = db\<lparr>matches := matches db'\<rparr>"
proof -
  from assms obtain i where i: "findIndex (\<lambda>m. m_id m = mid) (matches db) = Some i"
    using findIndex_exists [of "matches db" "\<lambda>m. m_id m = mid"] by blast
  from findIndex_Some_bound [OF i] have b: "i < length (matches db)" "m_id (matches db ! i) = mid"
    by simp_all
  show ?thesis
    using i b by (simp add: undoMatchResult_def)
qed

theorem undoMatchResult_frame_witness:
  "(\<exists>m \<in> set (matches (sample_data ACTIVE)). m_id m = ''m2'')
   \<and> (\<exists>i db'. undoMatchResult ''m2'' (sample_data ACTIVE) = Inr db'
           \<and> findIndex (\<lambda>m. m_id m = ''m2'') (matches (sample_data ACTIVE)) = Some i
           \<and> i < length (matches (sample_data ACTIVE))
           \<and> m_id (matches (sample_data ACTIVE) ! i) = ''m2''
           \<and> length (matches db') = length (matches (sample_data ACTIVE))
           \<and> matches db' ! i = (matches (sample_data ACTIVE) ! i)\<lparr>isCompleted := False\<rparr>
           \<and> isCompleted (matches db' ! i) = False
           \<and> scoreA (matches db' ! i) = scoreA (matches (sample_data ACTIVE) ! i)
           \<and> scoreB (matches db' ! i) = scoreB (matches (sample_data ACTIVE) ! i)
           \<and> (\<forall>j < length (matches (sample_data ACTIVE)). j \<noteq> i \<longrightarrow>
                 matches db' ! j = matches (sample_data ACTIVE) ! j)
           \<and> db' = (sample_data ACTIVE)\<lparr>matches := matches db'\<rparr>)"
proof (rule conjI)
  show h: "\<exists>m \<in> set (matches (sample_data ACTIVE)). m_id m = ''m2''"
    by (simp add: sample_data_def sample_match_def)
  show "\<exists>i db'. undoMatchResult ''m2'' (sample_data ACTIVE) = Inr db'
           \<and> findIndex (\<lambda>m. m_id m = ''m2'') (matches (sample_data ACTIVE)) = Some i
           \<and> i < length (matches (sample_data ACTIVE))
           \<and> m_id (matches (sample_data ACTIVE) ! i) = ''m2''
           \<and> length (matches db') = length (matches (sample_data ACTIVE))
           \<and> matches db' ! i = (matches (sample_data ACTIVE) ! i)\<lparr>isCompleted := False\<rparr>
           \<and> isCompleted (matches db' ! i) = False
           \<and> scoreA (matches db' ! i) = scoreA (matches (sample_data ACTIVE) ! i)
           \<and> scoreB (matches db' ! i) = scoreB (matches (sample_data ACTIVE) ! i)
           \<and> (\<forall>j < length (matches (sample_data ACTIVE)). j \<noteq> i \<longrightarrow>
                 matches db' ! j = matches (sample_data ACTIVE) ! j)
           \<and> db' = (sample_data ACTIVE)\<lparr>matches := matches db'\<rparr>"
    by (rule undoMatchResult_frame [OF h])
qed

lemma find_map_status:
  "find (\<lambda>t. t_id t = tid) (map (\<lambda>t. if t_id t = tid' then t\<lparr>status := st\<rparr> else t) ts) =
     map_option (\<lambda>t. if t_id t = tid' then t\<lparr>status := st\<rparr> else t) (find (\<lambda>t. t_id t = tid) ts)"
  by (induction ts) auto

section \<open>Resetting a tournament (services/db.ts, lines 136-141)\<close>

text \<open>
  C1 (as amended). \<^verbatim>\<open>resetTournamentSchedule\<close> has no guard on the status: for a stored
  tournament of any status, \<^verbatim>\<open>Finished\<close> included, it sets the status to
  \<^verbatim>\<open>Upcoming\<close> and deletes every match and every assignment of the tournament; the
  tournaments, matches and assignments of every other id, the chat, the users and the
  teams are as before. (The guard of the source is in the user interface: the admin tab
  that holds the reset button is rendered only while the tournament is not finished.)
\<close>

theorem resetTournamentSchedule_unguarded:
  assumes "getTournamentById tid db = Some t"
  shows "getTournamentById tid (resetTournamentSchedule tid db) = Some (t\<lparr>status := UPCOMING\<rparr>)
       \<and> getMatches tid (resetTournamentSchedule tid db) = []
       \<and> getAssignments tid (resetTournamentSchedule tid db) = []
       \<and> (\<forall>tid'. tid' \<noteq> tid \<longrightarrow>
            getTournamentById tid' (resetTournamentSchedule tid db) = getTournamentById tid' db
          \<and> getMatches tid' (resetTournamentSchedule tid db) = getMatches tid' db
          \<and> getAssignments tid' (resetTournamentSchedule tid db) = getAssignments tid' db)
       \<and> chatMessages (resetTournamentSchedule tid db) = chatMessages db
       \<and> users (resetTournamentSchedule tid db) = users db
       \<and> globalTeams (resetTournamentSchedule tid db) = globalTeams db"
proof -
  have tid: "t_id t = tid"
    using assms by (auto simp: getTournamentById_def dest: find_Some_iff [THEN iffD1])
  have 1: "getTournamentById tid (resetTournamentSchedule tid db) = Some (t\<lparr>status := UPCOMING\<rparr>)"
    using assms tid by (simp add: getTournamentById_def resetTournamentSchedule_def find_map_status)
  have 2: "getMatches tid (resetTournamentSchedule tid db) = []"
    by (simp add: getMatches_def resetTournamentSchedule_def)
  have 3: "getAssignments tid (resetTournamentSchedule tid db) = []"
    by (simp add: getAssignments_def resetTournamentSchedule_def)
  have 4: "getTournamentById tid' (resetTournamentSchedule tid db) = getTournamentById tid' db"
    if "tid' \<noteq> tid" for tid'
  proof (cases "find (\<lambda>t. t_id t = tid') (tournaments db)")
    case None
    then show ?thesis
      by (simp add: getTournamentById_def resetTournamentSchedule_def find_map_status)
  next
    case (Some u)
    then have "t_id u = tid'" by (auto simp: find_Some_iff)
    with Some that show ?thesis
      by (simp add: getTournamentById_def resetTournamentSchedule_def find_map_status)
  qed
  have 5: "getMatches tid' (resetTournamentSchedule tid db) = getMatches tid' db"
    if "tid' \<noteq> tid" for tid'
    using that by (auto simp: getMatches_def resetTournamentSchedule_def intro: filter_cong)
  have 6: "getAssignments tid' (resetTournamentSchedule tid db) = getAssignments tid' db"
    if "tid' \<noteq> tid" for tid'
    using that by (auto simp: getAssignments_def resetTournamentSchedule_def intro: filter_cong)
  have 7: "chatMessages (resetTournamentSchedule tid db) = chatMessages db
       \<and> users (resetTournamentSchedule tid db) = users db
       \<and> globalTeams (resetTournamentSchedule tid db) = globalTeams db"
    by (simp add: resetTournamentSchedule_def)
  show ?thesis using 1 2 3 4 5 6 7 by blast
qed

theorem resetTournamentSchedule_unguarded_witness:
  "getTournamentById ''t1'' (sample_data FINISHED) = Some (sample_tournament ''t1'' FINISHED)
   \<and> getTournamentById ''t1'' (resetTournamentSchedule ''t1'' (sample_data FINISHED))
       = Some ((sample_tournament ''t1'' FINISHED)\<lparr>status := UPCOMING\<rparr>)
   \<and> getMatches ''t1'' (resetTournamentSchedule ''t1'' (sample_data FINISHED)) = []
   \<and> getAssignments ''t1'' (resetTournamentSchedule ''t1'' (sample_data FINISHED)) = []
   \<and> getMatches ''t2'' (resetTournamentSchedule ''t1'' (sample_data FINISHED))
       = getMatches ''t2'' (sample_data FINISHED)"
proof -
  have h: "getTournamentById ''t1'' (sample_data FINISHED) = Some (sample_tournament ''t1'' FINISHED)"
    by (simp add: getTournamentById_def sample_data_def sample_tournament_def)
  show ?thesis
    using h resetTournamentSchedule_unguarded [OF h] by simp
qed

text \<open>
  C1 as stated fails: the tournament \<^verbatim>\<open>t1\<close> of the sample store is finished and has two
  matches and an assignment; the reset is not rejected, the tournament is
  \<^verbatim>\<open>Upcoming\<close> afterwards and its matches and its assignment are gone.
\<close>

theorem reset_finished_counterexample:
  "tournamentFinished (sample_data FINISHED) ''t1''
   \<and> getMatches ''t1'' (sample_data FINISHED) =
       [sample_match ''m1'' ''t1'' 1 ''u2'' ''u1'',
        (sample_match ''m2'' ''t1'' 2 ''u1'' ''u2'')\<lparr>scoreA := Some 2, scoreB := Some 1, isCompleted := True\<rparr>]
   \<and> getAssignments ''t1'' (sample_data FINISHED) = [sample_assignment ''a1'' ''t1'']
   \<and> getTournamentById ''t1'' (resetTournamentSchedule ''t1'' (sample_data FINISHED))
       = Some (sample_tournament ''t1'' UPCOMING)
   \<and> getMatches ''t1'' (resetTournamentSchedule ''t1'' (sample_data FINISHED)) = []
   \<and> getAssignments ''t1'' (resetTournamentSchedule ''t1'' (sample_data FINISHED)) = []"
  by (simp add: tournamentFinished_def getTournamentById_def getMatches_def getAssignments_def
      resetTournamentSchedule_def sample_data_def sample_tournament_def sample_match_def
      sample_assignment_def)

section \<open>Recording a result (services/db.ts, lines 84-102)\<close>

lemma valid_score_iff: "valid_score v \<longleftrightarrow> (\<exists>n \<ge> 0. v = JsFinite (of_int n))"
proof
  assume "valid_score v"
  then obtain q where q: "v = JsFinite q" "0 \<le> q" "of_int \<lfloor>q\<rfloor> = q"
    by (cases v) (auto simp: valid_score_def)
  then have "0 \<le> \<lfloor>q\<rfloor>" by simp
  with q show "\<exists>n \<ge> 0. v = JsFinite (of_int n)" by metis
next
  assume "\<exists>n \<ge> 0. v = JsFinite (of_int n)"
  then show "valid_score v" by (auto simp: valid_score_def)
qed

text \<open>
  C2 (as amended). \<^verbatim>\<open>updateMatch\<close> of the local-storage service fails with a
  validation error when either score is not a number, is \<^verbatim>\<open>NaN\<close>, is negative or is
  not an integer; with valid scores it fails with the not-found error when no stored match
  has the id; with valid scores and a stored match of the id it succeeds, whatever the
  status of the tournament that owns the match, and the data is then the data before with
  the first match of the id holding the two scores given and \<^verbatim>\<open>isCompleted = true\<close>.
  A failed call leaves the data as it was.
\<close>

theorem updateMatch_rejections:
  "(\<not> valid_score sA \<or> \<not> valid_score sB \<longrightarrow>
      (\<exists>e. updateMatch mid sA sB db = Inl (e, db) \<and> is_ValidationError e))
   \<and> (valid_score sA \<and> valid_score sB \<and> (\<forall>m \<in> set (matches db). m_id m \<noteq> mid) \<longrightarrow>
      updateMatch mid sA sB db = Inl (MatchNotFound, db))
   \<and> (valid_score sA \<and> valid_score sB \<and> (\<exists>m \<in> set (matches db). m_id m = mid) \<longrightarrow>
      (\<exists>i. findIndex (\<lambda>m. m_id m = mid) (matches db) = Some i
         \<and> i < length (matches db)
         \<and> m_id (matches db ! i) = mid
         \<and> (\<forall>j < i. m_id (matches db ! j) \<noteq> mid)
         \<and> sA = JsFinite (of_int (js_int sA)) \<and> 0 \<le> js_int sA
         \<and> sB = JsFinite (of_int (js_int sB)) \<and> 0 \<le> js_int sB
         \<and> updateMatch mid sA sB db =
              Inr (db\<lparr>matches := (matches db)[i := (matches db ! i)
                     \<lparr>scoreA := Some (js_int sA), scoreB := Some (js_int sB),
                      isCompleted := True\<rparr>]\<rparr>)))
   \<and> (\<forall>e db'. updateMatch mid sA sB db = Inl (e, db') \<longrightarrow> db' = db)"
proof -
  have 1: "\<exists>e. updateMatch mid sA sB db = Inl (e, db) \<and> is_ValidationError e"
    if "\<not> valid_score sA \<or> \<not> valid_score sB"
    using that by (auto simp: updateMatch_def valid_score_def)
  have 2: "updateMatch mid sA sB db = Inl (MatchNotFound, db)"
    if "valid_score sA" "valid_score sB" "\<forall>m \<in> set (matches db). m_id m \<noteq> mid"
  proof -
    have "findIndex (\<lambda>m. m_id m = mid) (matches db) = None"
      using that(3) by (simp add: findIndex_None_iff)
    then show ?thesis using that(1,2) by (simp add: updateMatch_def valid_score_def)
  qed
  have 3: "\<exists>i. findIndex (\<lambda>m. m_id m = mid) (matches db) = Some i
         \<and> i < length (matches db)
         \<and> m_id (matches db ! i) = mid
         \<and> (\<forall>j < i. m_id (matches db ! j) \<noteq> mid)
         \<and> sA = JsFinite (of_int (js_int sA)) \<and> 0 \<le> js_int sA
         \<and> sB = JsFinite (of_int (js_int sB)) \<and> 0 \<le> js_int sB
         \<and> updateMatch mid sA sB db =
              Inr (db\<lparr>matches := (matches db)[i := (matches db ! i)
                     \<lparr>scoreA := Some (js_int sA), scoreB := Some (js_int sB),
                      isCompleted := True\<rparr>]\<rparr>)"
    if v: "valid_score sA" "valid_score sB" and ex: "\<exists>m \<in> set (matches db). m_id m = mid"
  proof -
    obtain i where i: "findIndex (\<lambda>m. m_id m = mid) (matches db) = Some i"
      using findIndex_exists [of "matches db" "\<lambda>m. m_id m = mid"] ex by blast
    from findIndex_Some_bound [OF i]
    have b: "i < length (matches db)" "m_id (matches db ! i) = mid" by simp_all
    have f: "\<forall>j < i. m_id (matches db ! j) \<noteq> mid"
      using findIndex_Some_first [OF i] by simp
    obtain n where n: "0 \<le> n" "sA = JsFinite (of_int n)"
      using v(1) unfolding valid_score_iff by blast
    obtain k where k: "0 \<le> k" "sB = JsFinite (of_int k)"
      using v(2) unfolding valid_score_iff by blast
    have sc: "sA = JsFinite (of_int (js_int sA))" "0 \<le> js_int sA"
      "sB = JsFinite (of_int (js_int sB))" "0 \<le> js_int sB"
      using n k by simp_all
    have u: "updateMatch mid sA sB db =
              Inr (db\<lparr>matches := (matches db)[i := (matches db ! i)
                     \<lparr>scoreA := Some (js_int sA), scoreB := Some (js_int sB),
                      isCompleted := True\<rparr>]\<rparr>)"
      using i v by (simp add: updateMatch_def valid_score_def)
    show ?thesis
      by (intro exI [of _ i] conjI i b f sc u)
  qed
  have 4: "db' = db" if "updateMatch mid sA sB db = Inl (e, db')" for e db'
    using that by (auto simp: updateMatch_def split: if_splits option.splits)
  show ?thesis
  proof (intro conjI impI allI)
    show "\<exists>e. updateMatch mid sA sB db = Inl (e, db) \<and> is_ValidationError e"
      if "\<not> valid_score sA \<or> \<not> valid_score sB"
      using that by (rule 1)
    show "updateMatch mid sA sB db = Inl (MatchNotFound, db)"
      if "valid_score sA \<and> valid_score sB \<and> (\<forall>m \<in> set (matches db). m_id m \<noteq> mid)"
      using that by (intro 2) simp_all
    show "\<exists>i. findIndex (\<lambda>m. m_id m = mid) (matches db) = Some i
         \<and> i < length (matches db)
         \<and> m_id (matches db ! i) = mid
         \<and> (\<forall>j < i. m_id (matches db ! j) \<noteq> mid)
         \<and> sA = JsFinite (of_int (js_int sA)) \<and> 0 \<le> js_int sA
         \<and> sB = JsFinite (of_int (js_int sB)) \<and> 0 \<le> js_int sB
         \<and> updateMatch mid sA sB db =
              Inr (db\<lparr>matches := (matches db)[i := (matches db ! i)
                     \<lparr>scoreA := Some (js_int sA), scoreB := Some (js_int sB),
                      isCompleted := True\<rparr>]\<rparr>)"
      if "valid_score sA \<and> valid_score sB \<and> (\<exists>m \<in> set (matches db). m_id m = mid)"
      using that by (intro 3) simp_all
    show "db' = db" if "updateMatch mid sA sB db = Inl (e, db')" for e db'
      using that by (rule 4)
  qed
qed

theorem updateMatch_rejections_witness:
  "\<not> valid_score (JsFinite (- 1))
   \<and> (\<exists>e. updateMatch ''m1'' (JsFinite (- 1)) (JsFinite 2) (sample_data ACTIVE)
            = Inl (e, sample_data ACTIVE) \<and> is_ValidationError e)
   \<and> \<not> valid_score (JsFinite (3 / 2))
   \<and> (\<exists>e. updateMatch ''m1'' (JsFinite 2) (JsFinite (3 / 2)) (sample_data ACTIVE)
            = Inl (e, sample_data ACTIVE) \<and> is_ValidationError e)
   \<and> \<not> valid_score JsNaN
   \<and> (\<exists>e. updateMatch ''m1'' JsNaN (JsFinite 2) (sample_data ACTIVE)
            = Inl (e, sample_data ACTIVE) \<and> is_ValidationError e)
   \<and> valid_score (JsFinite 1)
   \<and> updateMatch ''bad-id'' (JsFinite 1) (JsFinite 1) (sample_data ACTIVE)
        = Inl (MatchNotFound, sample_data ACTIVE)
   \<and> (\<exists>i. findIndex (\<lambda>m. m_id m = ''m1'') (matches (sample_data ACTIVE)) = Some i
         \<and> updateMatch ''m1'' (JsFinite 1) (JsFinite 1) (sample_data ACTIVE) =
              Inr ((sample_data ACTIVE)\<lparr>matches := (matches (sample_data ACTIVE))
                     [i := (matches (sample_data ACTIVE) ! i)
                        \<lparr>scoreA := Some (js_int (JsFinite 1)), scoreB := Some (js_int (JsFinite 1)),
                         isCompleted := True\<rparr>]\<rparr>))"
proof -
  have v1: "\<not> valid_score (JsFinite (- 1))" by (simp add: valid_score_def)
  have v2: "\<not> valid_score (JsFinite (3 / 2))" by code_simp
  have v3: "\<not> valid_score JsNaN" by (simp add: valid_score_def)
  have v4: "valid_score (JsFinite 1)" by (simp add: valid_score_def)
  have absent: "\<forall>m \<in> set (matches (sample_data ACTIVE)). m_id m \<noteq> ''bad-id''"
    by (simp add: sample_data_def sample_match_def)
  have present: "\<exists>m \<in> set (matches (sample_data ACTIVE)). m_id m = ''m1''"
    by (simp add: sample_data_def sample_match_def)
  note r1 = updateMatch_rejections [of "JsFinite (- 1)" "JsFinite 2" "''m1''" "sample_data ACTIVE",
      THEN conjunct1, THEN mp, OF disjI1 [OF v1]]
  note r2 = updateMatch_rejections [of "JsFinite 2" "JsFinite (3 / 2)" "''m1''" "sample_data ACTIVE",
      THEN conjunct1, THEN mp, OF disjI2 [OF v2]]
  note r3 = updateMatch_rejections [of JsNaN "JsFinite 2" "''m1''" "sample_data ACTIVE",
      THEN conjunct1, THEN mp, OF disjI1 [OF v3]]
  note r4 = updateMatch_rejections [of "JsFinite 1" "JsFinite 1" "''bad-id''" "sample_data ACTIVE",
      THEN conjunct2, THEN conjunct1, THEN mp, OF conjI [OF v4 conjI [OF v4 absent]]]
  note r5 = updateMatch_rejections [of "JsFinite 1" "JsFinite 1" "''m1''" "sample_data ACTIVE",
      THEN conjunct2, THEN conjunct2, THEN conjunct1, THEN mp, OF conjI [OF v4 conjI [OF v4 present]]]
  have e5: "\<exists>i. findIndex (\<lambda>m. m_id m = ''m1'') (matches (sample_data ACTIVE)) = Some i
         \<and> updateMatch ''m1'' (JsFinite 1) (JsFinite 1) (sample_data ACTIVE) =
              Inr ((sample_data ACTIVE)\<lparr>matches := (matches (sample_data ACTIVE))
                     [i := (matches (sample_data ACTIVE) ! i)
                        \<lparr>scoreA := Some (js_int (JsFinite 1)), scoreB := Some (js_int (JsFinite 1)),
                         isCompleted := True\<rparr>]\<rparr>)"
    using r5 by blast
  show ?thesis
    by (intro conjI v1 v2 v3 v4 r1 r2 r3 r4 e5)
qed

text \<open>
  C2 as stated fails in its third part: the match \<^verbatim>\<open>m1\<close> of the sample store belongs to
  a finished tournament, and \<^verbatim>\<open>updateMatch\<close> with the valid scores 3 and 0 succeeds and
  records the result.
\<close>

theorem updateMatch_finished_counterexample:
  "owningTournamentFinished (sample_data FINISHED) ''m1''
   \<and> valid_score (JsFinite 3) \<and> valid_score (JsFinite 0)
   \<and> updateMatch ''m1'' (JsFinite 3) (JsFinite 0) (sample_data FINISHED) =
       Inr ((sample_data FINISHED)\<lparr>matches :=
              [(sample_match ''m1'' ''t1'' 1 ''u2'' ''u1'')
                  \<lparr>scoreA := Some 3, scoreB := Some 0, isCompleted := True\<rparr>,
               (sample_match ''m2'' ''t1'' 2 ''u1'' ''u2'')
                  \<lparr>scoreA := Some 2, scoreB := Some 1, isCompleted := True\<rparr>,
               sample_match ''m3'' ''t2'' 1 ''u2'' ''u1'']\<rparr>)
   \<and> isCompleted (matches (sample_data FINISHED) ! 0) = False"
  by (simp add: owningTournamentFinished_def tournamentFinished_def getTournamentById_def
      updateMatch_def valid_score_def sample_data_def sample_tournament_def sample_match_def)

text \<open>
  The older copy of \<^verbatim>\<open>updateMatch\<close> has no validation: it records a negative score.
\<close>

lemma updateMatch_legacy_accepts_negative:
  "updateMatch_legacy ''m1'' (- 1) 0 (sample_data ACTIVE) =
     Inr ((sample_data ACTIVE)\<lparr>matches :=
            [(sample_match ''m1'' ''t1'' 1 ''u2'' ''u1'')
                \<lparr>scoreA := Some (- 1), scoreB := Some 0, isCompleted := True\<rparr>,
             (sample_match ''m2'' ''t1'' 2 ''u1'' ''u2'')
                \<lparr>scoreA := Some 2, scoreB := Some 1, isCompleted := True\<rparr>,
             sample_match ''m3'' ''t2'' 1 ''u2'' ''u1'']\<rparr>)"
  by (simp add: updateMatch_legacy_def sample_data_def sample_match_def)

section \<open>Properties of the standings\<close>









































lemma set_insertSorted: "set (insertSorted cmp x xs) = insert x (set xs)"
  by (induction xs) auto

lemma set_stableSort: "set (stableSort cmp xs) = set xs"
  unfolding stableSort_def by (induction xs) (auto simp: set_insertSorted)













text \<open>
  A completed match against a player whose id names a method of \<^verbatim>\<open>Object.prototype\<close> is
  not skipped: the roster member is credited, and the other half of the result goes to
  the built-in object.
\<close>

lemma standings_builtin_opponent:
  "calculateStandingsLogic [''u1'', ''u2'']
       [played (sample_match ''m1'' ''t1'' 1 ''u1'' ''constructor'') 1 0] [] [] [] True =
     Inr [(zero_row ''u1'')\<lparr>s_p := Num 1, s_w := Num 1, s_gf := Num 1, s_pts := Num 3\<rparr>,
          zero_row ''u2'']"
  by code_simp

text \<open>
  With a roster member called \<^verbatim>\<open>__proto__\<close>, a completed match of a player called
  \<^verbatim>\<open>id\<close> finds the id of the installed row, a string, and the function throws.
\<close>

lemma standings_type_error:
  "calculateStandingsLogic [''__proto__'', ''u2'']
       [played (sample_match ''m1'' ''t1'' 1 ''u2'' ''id'') 1 0] [] [] [] True = Inl TypeError"
  by code_simp




lemma filter_isCompleted_reopened:
  assumes "i < length ms" "\<not> isCompleted x"
  shows "filter isCompleted (ms[i := x]) = filter isCompleted (take i ms @ drop (Suc i) ms)"
  using assms by (simp add: upd_conv_take_nth_drop)

lemma filter_filter_swap: "filter P (filter Q xs) = filter Q (filter P xs)"
  by (induction xs) auto

section \<open>Recording and undoing a result (services/db.ts, lines 84-112)\<close>

text \<open>
  C5. For a stored match and valid scores, \<^verbatim>\<open>updateMatch\<close> followed by
  \<^verbatim>\<open>undoMatchResult\<close> on the same id both succeed and leave the match (the first one
  with the id) with \<^verbatim>\<open>isCompleted = false\<close>; the standings computed afterwards, from
  the whole store or from the matches of any one tournament, are the standings of the
  store without that match.
\<close>

theorem setResult_undoResult_roundtrip:
  assumes "\<exists>m \<in> set (matches db). m_id m = mid" and "valid_score a" and "valid_score b"
  shows "\<exists>i db1 db2.
           findIndex (\<lambda>m. m_id m = mid) (matches db) = Some i
         \<and> i < length (matches db)
         \<and> updateMatch mid a b db = Inr db1
         \<and> undoMatchResult mid db1 = Inr db2
         \<and> matches db2 = (matches db)[i := (matches db ! i)\<lparr>scoreA := Some (js_int a),
               scoreB := Some (js_int b), isCompleted := False\<rparr>]
         \<and> isCompleted (matches db2 ! i) = False
         \<and> calculateStandingsLogic ps (matches db2) us asg gts uo
             = calculateStandingsLogic ps (take i (matches db) @ drop (Suc i) (matches db)) us asg gts uo
         \<and> (\<forall>tid. calculateStandingsLogic ps (getMatches tid db2) us asg gts uo
             = calculateStandingsLogic ps
                 (getMatches tid (db\<lparr>matches := take i (matches db) @ drop (Suc i) (matches db)\<rparr>))
                 us asg gts uo)"
proof -
  let ?P = "\<lambda>m. m_id m = mid"
  from assms(1) obtain i where i: "findIndex ?P (matches db) = Some i"
    using findIndex_exists [of "matches db" ?P] by blast
  from findIndex_Some_bound [OF i] have b: "i < length (matches db)" "m_id (matches db ! i) = mid"
    by simp_all
  define m1 where "m1 = (matches db ! i)\<lparr>scoreA := Some (js_int a), scoreB := Some (js_int b), isCompleted := True\<rparr>"
  define db1 where "db1 = db\<lparr>matches := (matches db)[i := m1]\<rparr>"
  have u: "updateMatch mid a b db = Inr db1"
    using i assms(2,3) by (simp add: updateMatch_def valid_score_def db1_def m1_def)
  have i1: "findIndex ?P (matches db1) = Some i"
  proof -
    have "map m_id (matches db1) = map m_id (matches db)"
      using b by (simp add: db1_def m1_def map_update list_update_same_conv)
    moreover have "findIndex ?P xs = findIndex (\<lambda>s. s = mid) (map m_id xs)" for xs
      by (induction xs) auto
    ultimately show ?thesis using i by metis
  qed
  define m2 where "m2 = (matches db ! i)\<lparr>scoreA := Some (js_int a), scoreB := Some (js_int b), isCompleted := False\<rparr>"
  define db2 where "db2 = db1\<lparr>matches := (matches db)[i := m2]\<rparr>"
  have un: "undoMatchResult mid db1 = Inr db2"
    using i1 b by (simp add: undoMatchResult_def db2_def db1_def m1_def m2_def)
  have ms2: "matches db2 = (matches db)[i := m2]" by (simp add: db2_def)
  have nc: "\<not> isCompleted m2" by (simp add: m2_def)
  have f: "filter isCompleted (matches db2) = filter isCompleted (take i (matches db) @ drop (Suc i) (matches db))"
    unfolding ms2 using b(1) nc by (rule filter_isCompleted_reopened)
  have s1: "calculateStandingsLogic ps (matches db2) us asg gts uo
             = calculateStandingsLogic ps (take i (matches db) @ drop (Suc i) (matches db)) us asg gts uo"
    by (simp only: calculateStandingsLogic_def f)
  have s2: "calculateStandingsLogic ps (getMatches tid db2) us asg gts uo
             = calculateStandingsLogic ps
                 (getMatches tid (db\<lparr>matches := take i (matches db) @ drop (Suc i) (matches db)\<rparr>))
                 us asg gts uo" for tid
  proof -
    let ?Q = "\<lambda>m. m_tournamentId m = tid"
    let ?rest = "take i (matches db) @ drop (Suc i) (matches db)"
    have "filter isCompleted (filter ?Q (matches db2)) = filter ?Q (filter isCompleted (matches db2))"
      by (rule filter_filter_swap)
    also have "\<dots> = filter ?Q (filter isCompleted ?rest)"
      by (simp only: f)
    also have "\<dots> = filter isCompleted (filter ?Q ?rest)"
      by (rule filter_filter_swap)
    finally have "filter isCompleted (getMatches tid db2) =
          filter isCompleted (getMatches tid (db\<lparr>matches := ?rest\<rparr>))"
      by (simp add: getMatches_def del: filter_filter filter_append)
    then show ?thesis by (simp only: calculateStandingsLogic_def)
  qed
  have c: "isCompleted (matches db2 ! i) = False"
    using b nc by (simp add: ms2)
  show ?thesis
  proof (intro exI conjI allI)
    show "findIndex ?P (matches db) = Some i" by (fact i)
    show "i < length (matches db)" by (fact b(1))
    show "updateMatch mid a b db = Inr db1" by (fact u)
    show "undoMatchResult mid db1 = Inr db2" by (fact un)
    show "matches db2 = (matches db)[i := (matches db ! i)\<lparr>scoreA := Some (js_int a),
               scoreB := Some (js_int b), isCompleted := False\<rparr>]"
      using ms2 by (simp only: m2_def)
    show "isCompleted (matches db2 ! i) = False" by (fact c)
    show "calculateStandingsLogic ps (matches db2) us asg gts uo
             = calculateStandingsLogic ps (take i (matches db) @ drop (Suc i) (matches db)) us asg gts uo"
      by (fact s1)
    show "calculateStandingsLogic ps (getMatches tid db2) us asg gts uo
             = calculateStandingsLogic ps
                 (getMatches tid (db\<lparr>matches := take i (matches db) @ drop (Suc i) (matches db)\<rparr>))
                 us asg gts uo" for tid
      by (fact s2)
  qed
qed



theorem setResult_undoResult_roundtrip_witness:
  "(\<exists>m \<in> set (matches (sample_data ACTIVE)). m_id m = ''m1'')
   \<and> valid_score (JsFinite 2) \<and> valid_score (JsFinite 1)
   \<and> (\<exists>i db1 db2.
           findIndex (\<lambda>m. m_id m = ''m1'') (matches (sample_data ACTIVE)) = Some i
         \<and> i < length (matches (sample_data ACTIVE))
         \<and> updateMatch ''m1'' (JsFinite 2) (JsFinite 1) (sample_data ACTIVE) = Inr db1
         \<and> undoMatchResult ''m1'' db1 = Inr db2
         \<and> matches db2 = (matches (sample_data ACTIVE))[i := (matches (sample_data ACTIVE) ! i)
               \<lparr>scoreA := Some (js_int (JsFinite 2)), scoreB := Some (js_int (JsFinite 1)),
                isCompleted := False\<rparr>]
         \<and> isCompleted (matches db2 ! i) = False
         \<and> calculateStandingsLogic [''u1'', ''u2''] (matches db2) [] [] [] True
             = calculateStandingsLogic [''u1'', ''u2'']
                 (take i (matches (sample_data ACTIVE)) @ drop (Suc i) (matches (sample_data ACTIVE)))
                 [] [] [] True
         \<and> (\<forall>tid. calculateStandingsLogic [''u1'', ''u2''] (getMatches tid db2) [] [] [] True
             = calculateStandingsLogic [''u1'', ''u2'']
                 (getMatches tid ((sample_data ACTIVE)\<lparr>matches :=
                    take i (matches (sample_data ACTIVE)) @ drop (Suc i) (matches (sample_data ACTIVE))\<rparr>))
                 [] [] [] True))"
proof -
  have h1: "\<exists>m \<in> set (matches (sample_data ACTIVE)). m_id m = ''m1''"
    by (simp add: sample_data_def sample_match_def)
  have h2: "valid_score (JsFinite 2)" by (simp add: valid_score_def)
  have h3: "valid_score (JsFinite 1)" by (simp add: valid_score_def)
  show ?thesis
    by (intro conjI h1 h2 h3 setResult_undoResult_roundtrip [OF h1 h2 h3])
qed

text \<open>The table of the sample store: \<^verbatim>\<open>u1\<close> won 2-1 against \<^verbatim>\<open>u2\<close>.\<close>

lemma standings_example:
  "calculateStandingsLogic [''u1'', ''u2''] (matches (sample_data ACTIVE)) [] [] [] True =
     Inr [(zero_row ''u1'')\<lparr>s_p := Num 1, s_w := Num 1, s_gf := Num 2, s_ga := Num 1,
            s_pts := Num 3\<rparr>,
          (zero_row ''u2'')\<lparr>s_p := Num 1, s_l := Num 1, s_gf := Num 1, s_ga := Num 2\<rparr>]"
  by code_simp

section \<open>Properties of the fixture generator\<close>

lemma fx_pairStep:
  "map fx (pairStep ids tid asgs uo rotation n rnd i acc) =
     map fx acc @
     (if rotation ! i \<noteq> ''GHOST'' \<and> rotation ! (n - 1 - i) \<noteq> ''GHOST''
      then [if even (rnd + i) then (rnd + 1, rotation ! (n - 1 - i), rotation ! i)
            else (rnd + 1, rotation ! i, rotation ! (n - 1 - i))]
      else [])"
  by (simp add: pairStep_def Let_def fx_def even_iff_mod_2_eq_zero)

lemma pairStep_fold:
  "map fx (fold (pairStep ids tid asgs uo rotation n rnd) js acc) =
     map fx acc @
     map (\<lambda>i. if even (rnd + i) then (rnd + 1, rotation ! (n - 1 - i), rotation ! i)
              else (rnd + 1, rotation ! i, rotation ! (n - 1 - i)))
       (filter (\<lambda>i. rotation ! i \<noteq> ''GHOST'' \<and> rotation ! (n - 1 - i) \<noteq> ''GHOST'') js)"
proof (induction js arbitrary: acc)
  case Nil
  then show ?case by simp
next
  case (Cons j js)
  show ?case
    by (simp add: Cons.IH fx_pairStep)
qed

lemma length_rotateStep: "length (rotateStep r) = length r"
  by (cases r rule: rev_cases) (auto simp: rotateStep_def Let_def)

lemma length_rotateStep_pow: "length ((rotateStep ^^ k) r) = length r"
  by (induction k) (simp_all add: length_rotateStep)

lemma roundStep_fold:
  "fold (roundStep ids tid asgs uo (length fp)) [0..<k] (fp, []) =
     ((rotateStep ^^ k) fp,
      snd (fold (roundStep ids tid asgs uo (length fp)) [0..<k] (fp, [])))
   \<and> map fx (snd (fold (roundStep ids tid asgs uo (length fp)) [0..<k] (fp, []))) =
       concat (map (\<lambda>rnd. roundPairs ((rotateStep ^^ rnd) fp) rnd) [0..<k])"
proof (induction k)
  case 0
  then show ?case by simp
next
  case (Suc k)
  let ?st = "fold (roundStep ids tid asgs uo (length fp)) [0..<k] (fp, [])"
  from Suc have st: "?st = ((rotateStep ^^ k) fp, snd ?st)"
    and fxs: "map fx (snd ?st) = concat (map (\<lambda>rnd. roundPairs ((rotateStep ^^ rnd) fp) rnd) [0..<k])"
    by simp_all
  have step: "fold (roundStep ids tid asgs uo (length fp)) [0..<Suc k] (fp, [])
      = roundStep ids tid asgs uo (length fp) k ?st"
    by simp
  have 1: "fst (roundStep ids tid asgs uo (length fp) k ?st) = (rotateStep ^^ Suc k) fp"
    by (subst st) (simp add: roundStep_def)
  have 2: "map fx (snd (roundStep ids tid asgs uo (length fp) k ?st)) =
      map fx (snd ?st) @ roundPairs ((rotateStep ^^ k) fp) k"
    by (subst st) (simp add: roundStep_def pairStep_fold roundPairs_def length_rotateStep_pow)
  show ?case
    unfolding step using 1 2 fxs by (simp add: prod_eq_iff)
qed

lemma fx_secondLeg: "fx (secondLeg ids rounds k m) = (matchday m + rounds, playerBId m, playerAId m)"
  by (simp add: fx_def secondLeg_def)

lemma fx_secondHalf:
  "map fx (map (\<lambda>(k, m). secondLeg ids rounds (c + k) m) (enumerate n xs)) =
     map (\<lambda>m. returnFixture rounds (fx m)) xs"
  by (induction xs arbitrary: n) (simp_all add: secondLeg_def returnFixture_def fx_def)

lemma fx_generateFixtures:
  "map fx (generateFixturesAlgorithm ids tid ps asgs uo) =
     firstLeg ps @ map (returnFixture (length (fixturePlayers ps) - 1)) (firstLeg ps)"
proof -
  let ?fp = "fixturePlayers ps"
  let ?fh = "snd (fold (roundStep ids tid asgs uo (length ?fp)) [0..<length ?fp - 1] (?fp, []))"
  have fh: "map fx ?fh = firstLeg ps"
    using roundStep_fold [of ids tid asgs uo ?fp "length ?fp - 1"]
    by (simp add: firstLeg_def rotationAt_def)
  have gen: "generateFixturesAlgorithm ids tid ps asgs uo =
      ?fh @ map (\<lambda>(k, m). secondLeg ids (length ?fp - 1) (length ?fh + k) m) (enumerate 0 ?fh)"
    by (simp add: generateFixturesAlgorithm_def Let_def fixturePlayers_def)
  have "map fx (generateFixturesAlgorithm ids tid ps asgs uo) =
      map fx ?fh @ map (\<lambda>m. returnFixture (length ?fp - 1) (fx m)) ?fh"
    unfolding gen by (simp only: map_append fx_secondHalf)
  also have "map (\<lambda>m. returnFixture (length ?fp - 1) (fx m)) ?fh =
      map (returnFixture (length ?fp - 1)) (map fx ?fh)"
    by simp
  finally show ?thesis by (simp only: fh)
qed

lemma src_le: "r \<le> m \<Longrightarrow> p \<le> m \<Longrightarrow> src m r p \<le> m"
  by (auto simp: src_def origin_def)

lemma src_inj: "r \<le> m \<Longrightarrow> p \<le> m \<Longrightarrow> q \<le> m \<Longrightarrow> src m r p = src m r q \<Longrightarrow> p = q"
  by (auto simp: src_def origin_def split: if_splits)

lemma cover_zero:
  assumes "0 < b" "b \<le> m"
  shows "m - b < m \<and> src m (m - b) 0 = 0 \<and> src m (m - b) m = b"
  using assms by (auto simp: src_def origin_def)

lemma cover_even:
  assumes "m = 2 * h + 1" "k + l = 2 * c" "k < m" "l < m" "k < l"
  shows "\<exists>r i. r < m \<and> 2 * i < m + 1 \<and> src m r i = Suc l \<and> src m r (m - i) = Suc k"
proof -
  define r where "r = 2 * h - c"
  define i where "i = Suc (l + r - m)"
  have "r < m \<and> 2 * i < m + 1 \<and> src m r i = Suc l \<and> src m r (m - i) = Suc k"
    using assms unfolding r_def i_def src_def origin_def by auto
  then show ?thesis by blast
qed

lemma cover_odd_low:
  assumes "m = 2 * h + 1" "k + l = 2 * c + 1" "k < m" "l < m" "k < l" "k + l + 2 \<le> m"
  shows "\<exists>r i. r < m \<and> 2 * i < m + 1 \<and> src m r i = Suc k \<and> src m r (m - i) = Suc l"
proof -
  define r where "r = h - c - 1"
  define i where "i = Suc (k + r)"
  have "r < m \<and> 2 * i < m + 1 \<and> src m r i = Suc k \<and> src m r (m - i) = Suc l"
    using assms unfolding r_def i_def src_def origin_def by auto
  then show ?thesis by blast
qed

lemma cover_odd_high:
  assumes "m = 2 * h + 1" "k + l = 2 * c + 1" "k < m" "l < m" "k < l" "m < k + l + 2"
  shows "\<exists>r i. r < m \<and> 2 * i < m + 1 \<and> src m r i = Suc k \<and> src m r (m - i) = Suc l"
proof -
  define r where "r = 3 * h - c"
  define i where "i = Suc (k + r - m)"
  have "r < m \<and> 2 * i < m + 1 \<and> src m r i = Suc k \<and> src m r (m - i) = Suc l"
    using assms unfolding r_def i_def src_def origin_def by auto
  then show ?thesis by blast
qed

lemma cover_pos:
  assumes m: "odd m" and k: "k < m" and l: "l < m" and kl: "k < l"
  shows "\<exists>r i. r < m \<and> 2 * i < m + 1 \<and>
           ((src m r i = Suc k \<and> src m r (m - i) = Suc l) \<or>
            (src m r i = Suc l \<and> src m r (m - i) = Suc k))"
proof -
  from m obtain h where h: "m = 2 * h + 1" by (rule oddE)
  show ?thesis
  proof (cases "even (k + l)")
    case True
    then obtain c where "k + l = 2 * c" by (rule evenE)
    from cover_even [OF h this k l kl] show ?thesis by blast
  next
    case False
    then obtain c where c: "k + l = 2 * c + 1" by (rule oddE)
    show ?thesis
    proof (cases "k + l + 2 \<le> m")
      case True
      from cover_odd_low [OF h c k l kl True] show ?thesis by blast
    next
      case False
      then have "m < k + l + 2" by simp
      from cover_odd_high [OF h c k l kl this] show ?thesis by blast
    qed
  qed
qed

lemma cover:
  assumes m: "odd m" and a: "a \<le> m" and b: "b \<le> m" and ab: "a \<noteq> b"
  shows "\<exists>r i. r < m \<and> 2 * i < m + 1 \<and>
           ((src m r i = a \<and> src m r (m - i) = b) \<or> (src m r i = b \<and> src m r (m - i) = a))"
proof -
  consider (a0) "a = 0" "0 < b" | (b0) "b = 0" "0 < a" | (lt) "0 < a" "a < b" | (gt) "0 < b" "b < a"
    using ab by linarith
  then show ?thesis
  proof cases
    case a0
    from cover_zero [OF a0(2) b] have "m - b < m \<and> 2 * 0 < m + 1 \<and> src m (m - b) 0 = a \<and> src m (m - b) (m - 0) = b"
      using a0 by simp
    then show ?thesis by blast
  next
    case b0
    from cover_zero [OF b0(2) a] have "m - a < m \<and> 2 * 0 < m + 1 \<and> src m (m - a) 0 = b \<and> src m (m - a) (m - 0) = a"
      using b0 by simp
    then show ?thesis by blast
  next
    case lt
    then obtain k l where kl: "a = Suc k" "b = Suc l" "k < l"
      by (metis Suc_less_eq Suc_pred less_trans)
    with a b have "k < m" "l < m" by simp_all
    from cover_pos [OF m this kl(3)] show ?thesis unfolding kl by blast
  next
    case gt
    then obtain k l where kl: "b = Suc k" "a = Suc l" "k < l"
      by (metis Suc_less_eq Suc_pred less_trans)
    with a b have "k < m" "l < m" by simp_all
    from cover_pos [OF m this kl(3)] show ?thesis unfolding kl by blast
  qed
qed

lemma rotateStep_Cons: "ys \<noteq> [] \<Longrightarrow> rotateStep (x # ys) = x # last ys # butlast ys"
  by (simp add: rotateStep_def Let_def)

lemma set_rotateStep: "set (rotateStep r) = set r"
proof (cases r)
  case Nil
  then show ?thesis by (simp add: rotateStep_def)
next
  case (Cons x ys)
  show ?thesis
  proof (cases "ys = []")
    case True
    with Cons show ?thesis by (simp add: rotateStep_def)
  next
    case False
    then have "set ys = insert (last ys) (set (butlast ys))"
      by (metis append_butlast_last_id list.simps(15) rotate1.simps(2) set_rotate1)
    with False Cons show ?thesis by (simp add: rotateStep_Cons)
  qed
qed

lemma distinct_rotateStep: "distinct (rotateStep r) = distinct r"
proof (cases r)
  case Nil
  then show ?thesis by (simp add: rotateStep_def)
next
  case (Cons x ys)
  show ?thesis
  proof (cases "ys = []")
    case True
    with Cons show ?thesis by (simp add: rotateStep_def)
  next
    case False
    then have ys: "ys = butlast ys @ [last ys]" by simp
    have "distinct ys = distinct (last ys # butlast ys)"
      by (subst ys) (simp only: distinct_append distinct.simps, auto)
    moreover have "set ys = set (last ys # butlast ys)"
      by (subst ys) (simp only: set_append, auto)
    ultimately show ?thesis using False Cons by (simp add: rotateStep_Cons)
  qed
qed

lemma set_rotateStep_pow: "set ((rotateStep ^^ k) r) = set r"
  by (induction k) (simp_all add: set_rotateStep)

lemma distinct_rotateStep_pow: "distinct ((rotateStep ^^ k) r) = distinct r"
  by (induction k) (simp_all add: distinct_rotateStep)

lemma rotateStep_pow_Cons:
  assumes "length ys = m" "r \<le> m"
  shows "(rotateStep ^^ r) (x # ys) = x # map (\<lambda>j. ys ! origin m r j) [0..<m]"
  using assms(2)
proof (induction r)
  case 0
  have "map (\<lambda>j. ys ! j) [0..<length ys] = ys" by (rule map_nth)
  then show ?case using assms(1) by (simp add: origin_def)
next
  case (Suc r)
  let ?zs = "map (\<lambda>j. ys ! origin m r j) [0..<m]"
  from Suc have IH: "(rotateStep ^^ r) (x # ys) = x # ?zs" and r: "Suc r \<le> m" by simp_all
  from r have ne: "?zs \<noteq> []" by auto
  have "last ?zs # butlast ?zs = map (\<lambda>j. ys ! origin m (Suc r) j) [0..<m]"
  proof (rule nth_equalityI)
    show "length (last ?zs # butlast ?zs) = length (map (\<lambda>j. ys ! origin m (Suc r) j) [0..<m])"
      using r by simp
  next
    fix j assume "j < length (last ?zs # butlast ?zs)"
    then have j: "j < m" using r by simp
    show "(last ?zs # butlast ?zs) ! j = map (\<lambda>j. ys ! origin m (Suc r) j) [0..<m] ! j"
    proof (cases j)
      case 0
      then show ?thesis using r j by (simp add: last_conv_nth origin_def)
    next
      case (Suc j')
      then show ?thesis using r j by (simp add: nth_butlast origin_def)
    qed
  qed
  then show ?case using IH ne by (simp add: rotateStep_Cons)
qed

lemma rotateStep_pow_nth:
  assumes "length fp = Suc m" "r \<le> m" "p \<le> m"
  shows "(rotateStep ^^ r) fp ! p = fp ! src m r p"
proof -
  from assms(1) obtain x ys where fp: "fp = x # ys" and ys: "length ys = m"
    by (cases fp) auto
  show ?thesis
  proof (cases p)
    case 0
    then show ?thesis by (simp add: fp rotateStep_pow_Cons [OF ys assms(2)] src_def)
  next
    case (Suc j)
    with assms(3) have "j < m" by simp
    moreover have "origin m r j < m" using assms(2) \<open>j < m\<close> by (auto simp: origin_def)
    ultimately show ?thesis
      using Suc by (simp add: fp rotateStep_pow_Cons [OF ys assms(2)] src_def)
  qed
qed

lemma length_fixturePlayers_even: "even (length (fixturePlayers ps))"
  by (auto simp: fixturePlayers_def)

lemma in_roundPairs:
  assumes "i < length R div 2" "R ! i \<noteq> ''GHOST''" "R ! (length R - 1 - i) \<noteq> ''GHOST''"
  shows "(if even (rnd + i) then (rnd + 1, R ! (length R - 1 - i), R ! i)
          else (rnd + 1, R ! i, R ! (length R - 1 - i))) \<in> set (roundPairs R rnd)"
  using assms unfolding roundPairs_def by (intro image_eqI [where x = i, THEN subst [OF set_map [symmetric], where P = "\<lambda>S. _ \<in> S"]]) auto

lemma fixturePlayers_facts:
  assumes "distinct ps" "''GHOST'' \<notin> set ps"
  shows "distinct (fixturePlayers ps)"
    and "set ps \<subseteq> set (fixturePlayers ps)"
    and "i < length ps \<Longrightarrow> fixturePlayers ps ! i = ps ! i"
    and "length ps \<le> length (fixturePlayers ps)"
  using assms by (auto simp: fixturePlayers_def nth_append)

lemma rotationAt_nth:
  assumes "length (fixturePlayers ps) = Suc m" "r \<le> m" "p \<le> m"
  shows "rotationAt ps r ! p = fixturePlayers ps ! src m r p"
  unfolding rotationAt_def using assms by (rule rotateStep_pow_nth)

lemma length_rotationAt: "length (rotationAt ps r) = length (fixturePlayers ps)"
  by (simp add: rotationAt_def length_rotateStep_pow)

lemma firstLeg_covers:
  assumes d: "distinct ps" and g: "''GHOST'' \<notin> set ps"
    and a: "a \<in> set ps" and b: "b \<in> set ps" and ab: "a \<noteq> b"
  shows "\<exists>day. (day, a, b) \<in> set (firstLeg ps) \<or> (day, b, a) \<in> set (firstLeg ps)"
proof -
  let ?fp = "fixturePlayers ps"
  from a obtain ia where ia: "ia < length ps" "ps ! ia = a" by (auto simp: in_set_conv_nth)
  from b obtain ib where ib: "ib < length ps" "ps ! ib = b" by (auto simp: in_set_conv_nth)
  have ne: "ia \<noteq> ib" using ia ib ab by auto
  have "length ?fp \<noteq> 0" using ia fixturePlayers_facts(4) [OF d g] by auto
  then obtain m where m: "length ?fp = Suc m" by (cases "length ?fp") auto
  have odd: "odd m" using length_fixturePlayers_even [of ps] m by simp
  have le: "ia \<le> m" "ib \<le> m" using ia ib fixturePlayers_facts(4) [OF d g] m by auto
  from cover [OF odd le ne] obtain r i where r: "r < m" and i: "2 * i < m + 1"
    and c: "(src m r i = ia \<and> src m r (m - i) = ib) \<or> (src m r i = ib \<and> src m r (m - i) = ia)"
    by blast
  let ?R = "rotationAt ps r"
  have len: "length ?R = Suc m" by (simp add: length_rotationAt m)
  have i2: "i < length ?R div 2" using i len odd by (auto elim!: oddE)
  have im: "i \<le> m" "m - i \<le> m" using i by simp_all
  have fa: "?fp ! ia = a" and fb: "?fp ! ib = b"
    using ia ib fixturePlayers_facts(3) [OF d g] by simp_all
  have Ri: "?R ! i = ?fp ! src m r i" and Rm: "?R ! (m - i) = ?fp ! src m r (m - i)"
    using rotationAt_nth [OF m] r im by simp_all
  have pair: "(?R ! i = a \<and> ?R ! (m - i) = b) \<or> (?R ! i = b \<and> ?R ! (m - i) = a)"
    using c Ri Rm fa fb by auto
  have ng: "?R ! i \<noteq> ''GHOST''" "?R ! (length ?R - 1 - i) \<noteq> ''GHOST''"
    using pair a b g len by auto
  from in_roundPairs [OF i2 ng, of r]
  have "(r + 1, a, b) \<in> set (roundPairs ?R r) \<or> (r + 1, b, a) \<in> set (roundPairs ?R r)"
    using pair len by (auto split: if_splits)
  moreover have "set (roundPairs ?R r) \<subseteq> set (firstLeg ps)"
    using r m by (auto simp: firstLeg_def)
  ultimately show ?thesis by blast
qed

lemma filter_one_out:
  assumes "i0 < h"
  shows "length (filter (\<lambda>i. i \<noteq> i0) [0..<h]) = h - 1"
proof -
  have "filter (\<lambda>i. i = i0) [0..<h] = [i0]"
    using assms by (induction h) auto
  then have "length (filter (\<lambda>i. i = i0) [0..<h]) = 1" by simp
  moreover have "length (filter (\<lambda>i. i = i0) [0..<h]) + length (filter (\<lambda>i. \<not> i = i0) [0..<h]) = length [0..<h]"
    by (rule sum_length_filter_compl)
  ultimately show ?thesis by simp
qed

lemma ghost_filter_count:
  assumes d: "distinct R" and n: "length R = n" and e: "even n" and g: "g \<in> set R"
  shows "length (filter (\<lambda>i. R ! i \<noteq> g \<and> R ! (n - 1 - i) \<noteq> g) [0..<n div 2]) = n div 2 - 1"
proof -
  from g n obtain P where P: "P < n" "R ! P = g" by (auto simp: in_set_conv_nth)
  define i0 where "i0 = (if P < n div 2 then P else n - 1 - P)"
  have i0: "i0 < n div 2" using P(1) e unfolding i0_def by (auto elim!: evenE)
  have iff: "(R ! i \<noteq> g \<and> R ! (n - 1 - i) \<noteq> g) \<longleftrightarrow> i \<noteq> i0" if "i \<in> set [0..<n div 2]" for i
  proof -
    from that have i: "i < n div 2" by simp
    then have in1: "i < n" and in2: "n - 1 - i < n" using P(1) by auto
    have "R ! i = g \<longleftrightarrow> i = P"
      using d in1 P n by (metis nth_eq_iff_index_eq)
    moreover have "R ! (n - 1 - i) = g \<longleftrightarrow> n - 1 - i = P"
      using d in2 P n by (metis nth_eq_iff_index_eq)
    ultimately show ?thesis
      using i P(1) e unfolding i0_def by (auto elim!: evenE)
  qed
  have "filter (\<lambda>i. R ! i \<noteq> g \<and> R ! (n - 1 - i) \<noteq> g) [0..<n div 2] = filter (\<lambda>i. i \<noteq> i0) [0..<n div 2]"
    by (rule filter_cong [OF refl]) (rule iff)
  then show ?thesis by (simp only: filter_one_out [OF i0])
qed

lemma length_roundPairs:
  assumes d: "distinct ps" and g: "''GHOST'' \<notin> set ps"
  shows "length (roundPairs (rotationAt ps r) r) = length ps div 2"
proof (cases "even (length ps)")
  case True
  then have fp: "fixturePlayers ps = ps"
    by (simp add: fixturePlayers_def even_iff_mod_2_eq_zero)
  have set: "set (rotationAt ps r) = set ps"
    by (simp add: rotationAt_def set_rotateStep_pow fp)
  have len: "length (rotationAt ps r) = length ps"
    by (simp add: length_rotationAt fp)
  have "filter (\<lambda>i. rotationAt ps r ! i \<noteq> ''GHOST'' \<and> rotationAt ps r ! (length ps - 1 - i) \<noteq> ''GHOST'')
          [0..<length ps div 2] = [0..<length ps div 2]"
  proof (rule filter_True, intro ballI conjI)
    fix i assume "i \<in> set [0..<length ps div 2]"
    then have "i < length ps" "length ps - 1 - i < length ps" by auto
    then have "rotationAt ps r ! i \<in> set ps" "rotationAt ps r ! (length ps - 1 - i) \<in> set ps"
      using set len by (metis nth_mem)+
    then show "rotationAt ps r ! i \<noteq> ''GHOST''" "rotationAt ps r ! (length ps - 1 - i) \<noteq> ''GHOST''"
      using g by auto
  qed
  then show ?thesis by (simp add: roundPairs_def len)
next
  case False
  then have fp: "fixturePlayers ps = ps @ [''GHOST'']"
    by (simp add: fixturePlayers_def odd_iff_mod_2_eq_one)
  let ?R = "rotationAt ps r"
  have len: "length ?R = length ps + 1" by (simp add: length_rotationAt fp)
  have dR: "distinct ?R" using d g by (simp add: rotationAt_def distinct_rotateStep_pow fp)
  have gR: "''GHOST'' \<in> set ?R" by (simp add: rotationAt_def set_rotateStep_pow fp)
  have ev: "even (length ps + 1)" using False by simp
  from ghost_filter_count [OF dR len ev gR]
  have "length (roundPairs ?R r) = (length ps + 1) div 2 - 1"
    by (simp add: roundPairs_def len)
  also have "\<dots> = length ps div 2" using False by (auto elim!: oddE)
  finally show ?thesis .
qed

lemma length_concat_const:
  "(\<And>r. r < k \<Longrightarrow> length (f r) = c) \<Longrightarrow> length (concat (map f [0..<k])) = k * c"
  by (induction k) simp_all

lemma length_firstLeg:
  assumes "distinct ps" "''GHOST'' \<notin> set ps"
  shows "length (firstLeg ps) = (length (fixturePlayers ps) - 1) * (length ps div 2)"
  unfolding firstLeg_def by (rule length_concat_const) (rule length_roundPairs [OF assms])

lemma rounds_times_half:
  "2 * ((length (fixturePlayers ps) - 1) * (length ps div 2)) = length ps * (length ps - 1)"
proof (cases "even (length ps)")
  case True
  then obtain h where h: "length ps = 2 * h" by (rule evenE)
  then have "fixturePlayers ps = ps" by (simp add: fixturePlayers_def)
  then show ?thesis using h by (simp add: algebra_simps)
next
  case False
  then obtain h where h: "length ps = 2 * h + 1" by (rule oddE)
  then have "length (fixturePlayers ps) = 2 * h + 2" by (simp add: fixturePlayers_def)
  then show ?thesis using h by (simp add: algebra_simps)
qed

lemma length_generateFixtures:
  assumes "distinct ps" "''GHOST'' \<notin> set ps"
  shows "length (generateFixturesAlgorithm ids tid ps asgs uo) = length ps * (length ps - 1)"
proof -
  have "length (generateFixturesAlgorithm ids tid ps asgs uo)
      = length (map fx (generateFixturesAlgorithm ids tid ps asgs uo))" by simp
  also have "\<dots> = 2 * length (firstLeg ps)"
    by (simp only: fx_generateFixtures length_append length_map mult_2)
  also have "\<dots> = length ps * (length ps - 1)"
    by (simp only: length_firstLeg [OF assms] rounds_times_half)
  finally show ?thesis .
qed

lemma sides_fx: "sides m = snd (fx m)"
  by (simp add: sides_def fx_def)

lemma generateFixtures_covers:
  assumes d: "distinct ps" and g: "''GHOST'' \<notin> set ps"
    and a: "a \<in> set ps" and b: "b \<in> set ps" and ab: "a \<noteq> b"
  shows "(a, b) \<in> set (map sides (generateFixturesAlgorithm ids tid ps asgs uo))"
proof -
  let ?res = "generateFixturesAlgorithm ids tid ps asgs uo"
  let ?k = "length (fixturePlayers ps) - 1"
  have s: "set (map sides ?res) = snd ` set (map fx ?res)"
    by (simp add: sides_fx [abs_def] image_image)
  from firstLeg_covers [OF d g a b ab] obtain day
    where "(day, a, b) \<in> set (firstLeg ps) \<or> (day, b, a) \<in> set (firstLeg ps)" by blast
  then show ?thesis
  proof
    assume "(day, a, b) \<in> set (firstLeg ps)"
    then have "(day, a, b) \<in> set (map fx ?res)" by (simp add: fx_generateFixtures)
    then have "snd (day, a, b) \<in> snd ` set (map fx ?res)" by (rule imageI)
    then show ?thesis by (simp only: s snd_conv)
  next
    assume "(day, b, a) \<in> set (firstLeg ps)"
    then have "returnFixture ?k (day, b, a) \<in> set (map (returnFixture ?k) (firstLeg ps))"
      by (simp only: set_map) (rule imageI)
    then have "(day + ?k, a, b) \<in> set (map fx ?res)"
      by (simp add: fx_generateFixtures returnFixture_def)
    then have "snd (day + ?k, a, b) \<in> snd ` set (map fx ?res)" by (rule imageI)
    then show ?thesis by (simp only: s snd_conv)
  qed
qed

lemma card_pairings:
  assumes "distinct ps"
  shows "card (pairings ps) = length ps * (length ps - 1)"
proof -
  let ?A = "set ps"
  have eq: "pairings ps = ?A \<times> ?A - (\<lambda>a. (a, a)) ` ?A"
    by (auto simp: pairings_def)
  have "card ((\<lambda>a. (a, a)) ` ?A) = card ?A"
    by (rule card_image) (simp add: inj_on_def)
  moreover have "(\<lambda>a. (a, a)) ` ?A \<subseteq> ?A \<times> ?A" by auto
  ultimately have "card (pairings ps) = card ?A * card ?A - card ?A"
    unfolding eq by (simp add: card_Diff_subset card_cartesian_product)
  also have "card ?A = length ps" using assms by (rule distinct_card)
  finally show ?thesis by (simp add: diff_mult_distrib2)
qed

lemma generateFixtures_sides:
  assumes d: "distinct ps" and g: "''GHOST'' \<notin> set ps"
  shows "distinct (map sides (generateFixturesAlgorithm ids tid ps asgs uo))"
    and "set (map sides (generateFixturesAlgorithm ids tid ps asgs uo)) = pairings ps"
proof -
  let ?L = "map sides (generateFixturesAlgorithm ids tid ps asgs uo)"
  have sub: "pairings ps \<subseteq> set ?L"
    using generateFixtures_covers [OF d g] by (auto simp: pairings_def)
  have len: "length ?L = card (pairings ps)"
    by (simp add: length_generateFixtures [OF d g] card_pairings [OF d])
  have "card (pairings ps) \<le> card (set ?L)"
    using sub by (simp add: card_mono)
  moreover have "card (set ?L) \<le> length ?L" by (rule card_length)
  ultimately have c: "card (set ?L) = length ?L" "card (set ?L) = card (pairings ps)"
    using len by simp_all
  show "distinct ?L" using c(1) by (rule card_distinct)
  show "set ?L = pairings ps"
    using sub c(2) by (metis List.finite_set card_subset_eq)
qed

lemma distinct_count_one:
  "distinct xs \<Longrightarrow> x \<in> set xs \<Longrightarrow> length (filter (\<lambda>y. y = x) xs) = 1"
  by (induction xs) (auto simp: filter_empty_conv)

lemma filter_day_concat:
  assumes "\<And>r t. r < k \<Longrightarrow> t \<in> set (f r) \<Longrightarrow> fst t = Suc r"
    and "\<And>r. r < k \<Longrightarrow> length (f r) = c"
  shows "length (filter (\<lambda>t. fst t = day) (concat (map f [0..<k]))) =
           (if 1 \<le> day \<and> day \<le> k then c else 0)"
  using assms
proof (induction k)
  case 0
  then show ?case by simp
next
  case (Suc k)
  have IH: "length (filter (\<lambda>t. fst t = day) (concat (map f [0..<k]))) =
           (if 1 \<le> day \<and> day \<le> k then c else 0)"
    by (rule Suc.IH) (simp_all add: Suc.prems)
  have last: "length (filter (\<lambda>t. fst t = day) (f k)) = (if day = Suc k then c else 0)"
  proof (cases "day = Suc k")
    case True
    then have "filter (\<lambda>t. fst t = day) (f k) = f k"
      using Suc.prems(1) [of k] by (intro filter_True) simp
    then show ?thesis using True Suc.prems(2) [of k] by simp
  next
    case False
    then have "filter (\<lambda>t. fst t = day) (f k) = []"
      using Suc.prems(1) [of k] by (auto simp: filter_empty_conv)
    then show ?thesis using False by simp
  qed
  show ?case using IH last by auto
qed

lemma fst_roundPairs: "t \<in> set (roundPairs R r) \<Longrightarrow> fst t = r + 1"
  by (auto simp: roundPairs_def split: if_splits)

lemma firstLeg_day_count:
  assumes "distinct ps" "''GHOST'' \<notin> set ps"
  shows "length (filter (\<lambda>t. fst t = day) (firstLeg ps)) =
           (if 1 \<le> day \<and> day \<le> length (fixturePlayers ps) - 1 then length ps div 2 else 0)"
  unfolding firstLeg_def
  by (rule filter_day_concat) (simp_all add: fst_roundPairs length_roundPairs [OF assms])

lemma returnLeg_day_count:
  "length (filter (\<lambda>t. fst t = day) (map (returnFixture k) ts)) =
     (if k \<le> day then length (filter (\<lambda>t. fst t = day - k) ts) else 0)"
proof -
  have 1: "length (filter (\<lambda>t. fst t = day) (map (returnFixture k) ts)) =
      length (filter (\<lambda>t. fst t + k = day) ts)"
    by (simp add: filter_map o_def returnFixture_def case_prod_beta)
  show ?thesis
  proof (cases "k \<le> day")
    case True
    then have "filter (\<lambda>t. fst t + k = day) ts = filter (\<lambda>t. fst t = day - k) ts"
      by (intro filter_cong) auto
    with 1 True show ?thesis by simp
  next
    case False
    then have "filter (\<lambda>t. fst t + k = day) ts = []"
      by (auto simp: filter_empty_conv)
    with 1 False show ?thesis by simp
  qed
qed

lemma generateFixtures_day_count:
  assumes "distinct ps" "''GHOST'' \<notin> set ps" "2 \<le> length ps"
  shows "length (filter (\<lambda>m. matchday m = day) (generateFixturesAlgorithm ids tid ps asgs uo)) =
           (if 1 \<le> day \<and> day \<le> 2 * (length (fixturePlayers ps) - 1) then length ps div 2 else 0)"
proof -
  let ?res = "generateFixturesAlgorithm ids tid ps asgs uo"
  let ?k = "length (fixturePlayers ps) - 1"
  have k: "1 \<le> ?k" using assms(3) by (auto simp: fixturePlayers_def)
  have "length (filter (\<lambda>m. matchday m = day) ?res) = length (filter (\<lambda>t. fst t = day) (map fx ?res))"
    by (simp add: filter_map o_def fx_def)
  also have "\<dots> = length (filter (\<lambda>t. fst t = day) (firstLeg ps))
      + length (filter (\<lambda>t. fst t = day) (map (returnFixture ?k) (firstLeg ps)))"
    by (simp only: fx_generateFixtures filter_append length_append)
  also have "\<dots> = (if 1 \<le> day \<and> day \<le> ?k then length ps div 2 else 0)
      + (if ?k \<le> day then (if 1 \<le> day - ?k \<and> day - ?k \<le> ?k then length ps div 2 else 0) else 0)"
    by (simp only: firstLeg_day_count [OF assms(1,2)] returnLeg_day_count)
  also have "\<dots> = (if 1 \<le> day \<and> day \<le> 2 * ?k then length ps div 2 else 0)"
    using k by auto
  finally show ?thesis .
qed

text \<open>
  C3 (as amended). For a roster of \<open>N \<ge> 2\<close> distinct participants, none of which is the
  string \<^verbatim>\<open>GHOST\<close>, the generator returns \<open>N (N - 1)\<close> matches; every ordered pair of
  distinct participants is the (home, away) pair of exactly one match, so every unordered
  pair meets exactly twice, with the sides swapped; no match has any other pair of
  players; and the matchdays are \<open>1 \<dots> 2 (S - 1)\<close> without gaps, each with \<open>N div 2\<close>
  matches, where \<open>S\<close> is the size of the padded roster: \<open>N\<close> when \<open>N\<close> is even and
  \<open>N + 1\<close> when \<open>N\<close> is odd (so \<open>2 N\<close> matchdays for an odd \<open>N\<close>).
\<close>

theorem fixtures_double_round_robin:
  assumes "distinct ps" and "2 \<le> length ps" and "''GHOST'' \<notin> set ps"
  shows "length (generateFixturesAlgorithm ids tid ps asgs uo) = length ps * (length ps - 1)
     \<and> (\<forall>a \<in> set ps. \<forall>b \<in> set ps. a \<noteq> b \<longrightarrow>
          length (filter (\<lambda>m. playerAId m = a \<and> playerBId m = b)
                    (generateFixturesAlgorithm ids tid ps asgs uo)) = 1)
     \<and> (\<forall>m \<in> set (generateFixturesAlgorithm ids tid ps asgs uo).
          playerAId m \<in> set ps \<and> playerBId m \<in> set ps \<and> playerAId m \<noteq> playerBId m)
     \<and> (\<forall>day. length (filter (\<lambda>m. matchday m = day)
                          (generateFixturesAlgorithm ids tid ps asgs uo)) =
            (if 1 \<le> day \<and> day \<le> 2 * (length (fixturePlayers ps) - 1)
             then length ps div 2 else 0))
     \<and> length (fixturePlayers ps) = (if even (length ps) then length ps else length ps + 1)"
proof -
  let ?res = "generateFixturesAlgorithm ids tid ps asgs uo"
  note d = assms(1) and g = assms(3)
  have 1: "length ?res = length ps * (length ps - 1)"
    by (rule length_generateFixtures [OF d g])
  have 2: "length (filter (\<lambda>m. playerAId m = a \<and> playerBId m = b) ?res) = 1"
    if "a \<in> set ps" "b \<in> set ps" "a \<noteq> b" for a b
  proof -
    have "(a, b) \<in> set (map sides ?res)"
      using that by (simp only: generateFixtures_sides(2) [OF d g]) (simp add: pairings_def)
    then have "length (filter (\<lambda>y. y = (a, b)) (map sides ?res)) = 1"
      by (rule distinct_count_one [OF generateFixtures_sides(1) [OF d g]])
    moreover have "length (filter (\<lambda>y. y = (a, b)) (map sides ?res)) =
        length (filter (\<lambda>m. playerAId m = a \<and> playerBId m = b) ?res)"
      by (simp add: filter_map o_def sides_def)
    ultimately show ?thesis by simp
  qed
  have 3: "playerAId m \<in> set ps \<and> playerBId m \<in> set ps \<and> playerAId m \<noteq> playerBId m"
    if "m \<in> set ?res" for m
  proof -
    from that have "sides m \<in> set (map sides ?res)" by simp
    then have "sides m \<in> pairings ps" by (simp only: generateFixtures_sides(2) [OF d g])
    then show ?thesis by (simp add: sides_def pairings_def)
  qed
  have 4: "length (filter (\<lambda>m. matchday m = day) ?res) =
            (if 1 \<le> day \<and> day \<le> 2 * (length (fixturePlayers ps) - 1)
             then length ps div 2 else 0)" for day
    by (rule generateFixtures_day_count [OF d g assms(2)])
  have 5: "length (fixturePlayers ps) = (if even (length ps) then length ps else length ps + 1)"
    by (simp add: fixturePlayers_def even_iff_mod_2_eq_zero)
  show ?thesis using 1 2 3 4 5 by blast
qed

theorem fixtures_double_round_robin_witness:
  "distinct [''A'', ''B'', ''C''] \<and> 2 \<le> length [''A'', ''B'', ''C'']
   \<and> ''GHOST'' \<notin> set [''A'', ''B'', ''C'']
   \<and> length (generateFixturesAlgorithm seq_ids ''t1'' [''A'', ''B'', ''C''] [] True) = 6
   \<and> length (filter (\<lambda>m. playerAId m = ''A'' \<and> playerBId m = ''B'')
        (generateFixturesAlgorithm seq_ids ''t1'' [''A'', ''B'', ''C''] [] True)) = 1
   \<and> length (filter (\<lambda>m. playerAId m = ''B'' \<and> playerBId m = ''A'')
        (generateFixturesAlgorithm seq_ids ''t1'' [''A'', ''B'', ''C''] [] True)) = 1
   \<and> length (filter (\<lambda>m. matchday m = 6)
        (generateFixturesAlgorithm seq_ids ''t1'' [''A'', ''B'', ''C''] [] True)) = 1
   \<and> length (filter (\<lambda>m. matchday m = 7)
        (generateFixturesAlgorithm seq_ids ''t1'' [''A'', ''B'', ''C''] [] True)) = 0"
proof -
  have h1: "distinct [''A'', ''B'', ''C'']" by simp
  have h2: "2 \<le> length [''A'', ''B'', ''C'']" by simp
  have h3: "''GHOST'' \<notin> set [''A'', ''B'', ''C'']" by simp
  note t = fixtures_double_round_robin [OF h1 h2 h3, of seq_ids "''t1''" "[]" True]
  note t1 = t [THEN conjunct1]
  note t2 = t [THEN conjunct2, THEN conjunct1, rule_format]
  note t4 = t [THEN conjunct2, THEN conjunct2, THEN conjunct2, THEN conjunct1, rule_format]
  note t5 = t [THEN conjunct2, THEN conjunct2, THEN conjunct2, THEN conjunct2]
  have a: "''A'' \<in> set [''A'', ''B'', ''C'']" and b: "''B'' \<in> set [''A'', ''B'', ''C'']"
    and ab: "''A'' \<noteq> ''B''" and ba: "''B'' \<noteq> ''A''" by simp_all
  have n: "length (fixturePlayers [''A'', ''B'', ''C'']) = 4"
    using t5 by simp
  have c1: "length (generateFixturesAlgorithm seq_ids ''t1'' [''A'', ''B'', ''C''] [] True) = 6"
    using t1 by simp
  have c2: "length (filter (\<lambda>m. playerAId m = ''A'' \<and> playerBId m = ''B'')
        (generateFixturesAlgorithm seq_ids ''t1'' [''A'', ''B'', ''C''] [] True)) = 1"
    by (rule t2 [OF a b ab])
  have c3: "length (filter (\<lambda>m. playerAId m = ''B'' \<and> playerBId m = ''A'')
        (generateFixturesAlgorithm seq_ids ''t1'' [''A'', ''B'', ''C''] [] True)) = 1"
    by (rule t2 [OF b a ba])
  have c4: "length (filter (\<lambda>m. matchday m = 6)
        (generateFixturesAlgorithm seq_ids ''t1'' [''A'', ''B'', ''C''] [] True)) = 1"
    by (simp only: t4 n) simp
  have c5: "length (filter (\<lambda>m. matchday m = 7)
        (generateFixturesAlgorithm seq_ids ''t1'' [''A'', ''B'', ''C''] [] True)) = 0"
    by (simp only: t4 n) simp
  show ?thesis
    by (intro conjI h1 h2 h3 c1 c2 c3 c4 c5)
qed

text \<open>
  C3 as stated fails for an odd roster: three participants get six matches on the six
  matchdays 1 to 6, one match each, and not on the matchdays \<open>1 \<dots> 2 (N - 1) = 1 \<dots> 4\<close>.
\<close>

theorem fixtures_odd_roster_counterexample:
  "distinct [''A'', ''B'', ''C'']
   \<and> map (\<lambda>m. (matchday m, playerAId m, playerBId m))
        (generateFixturesAlgorithm seq_ids ''t1'' [''A'', ''B'', ''C''] [] True) =
      [(1, ''B'', ''C''), (2, ''A'', ''C''), (3, ''B'', ''A''),
       (4, ''C'', ''B''), (5, ''C'', ''A''), (6, ''A'', ''B'')]
   \<and> 2 * (length [''A'', ''B'', ''C''] - 1) = (4::nat)"
  by code_simp

text \<open>
  The premise on the ids is needed: a participant whose id is the string \<^verbatim>\<open>GHOST\<close> is
  taken for the bye, and a roster of four with such a member gets 6 matches, not 12.
\<close>

lemma fixtures_roster_with_ghost_id:
  "distinct [''u1'', ''GHOST'', ''u3'', ''u4'']
   \<and> map fx (generateFixturesAlgorithm seq_ids ''t1'' [''u1'', ''GHOST'', ''u3'', ''u4''] [] True) =
      [(1, ''u4'', ''u1''), (2, ''u1'', ''u3''), (3, ''u3'', ''u4''),
       (4, ''u1'', ''u4''), (5, ''u3'', ''u1''), (6, ''u4'', ''u3'')]"
  by code_simp

lemma firstLeg_no_ghost:
  "t \<in> set (firstLeg ps) \<Longrightarrow> fst (snd t) \<noteq> ''GHOST'' \<and> snd (snd t) \<noteq> ''GHOST''"
  by (auto simp: firstLeg_def roundPairs_def split: if_splits)

lemma generateFixtures_no_ghost:
  assumes "m \<in> set (generateFixturesAlgorithm ids tid ps asgs uo)"
  shows "playerAId m \<noteq> ''GHOST'' \<and> playerBId m \<noteq> ''GHOST''"
proof -
  from assms have "fx m \<in> set (map fx (generateFixturesAlgorithm ids tid ps asgs uo))"
    by simp
  then have "fx m \<in> set (firstLeg ps) \<or>
      fx m \<in> returnFixture (length (fixturePlayers ps) - 1) ` set (firstLeg ps)"
    by (simp add: fx_generateFixtures)
  then show ?thesis
  proof
    assume "fx m \<in> set (firstLeg ps)"
    from firstLeg_no_ghost [OF this] show ?thesis by (simp add: fx_def)
  next
    assume "fx m \<in> returnFixture (length (fixturePlayers ps) - 1) ` set (firstLeg ps)"
    then obtain t where t: "t \<in> set (firstLeg ps)"
      and m: "fx m = returnFixture (length (fixturePlayers ps) - 1) t" by blast
    from firstLeg_no_ghost [OF t] m show ?thesis
      by (cases t) (auto simp: fx_def returnFixture_def)
  qed
qed

text \<open>
  C7. For an odd-sized roster, no match that the generator returns has \<^verbatim>\<open>GHOST\<close> as
  \<^verbatim>\<open>playerAId\<close> or as \<^verbatim>\<open>playerBId\<close>. (\<open>generateFixtures_no_ghost\<close> above shows it for
  every roster.)
\<close>

theorem odd_roster_no_ghost:
  assumes "odd (length ps)"
  shows "\<forall>m \<in> set (generateFixturesAlgorithm ids tid ps asgs uo).
           playerAId m \<noteq> ''GHOST'' \<and> playerBId m \<noteq> ''GHOST''"
  using generateFixtures_no_ghost by blast

theorem odd_roster_no_ghost_witness:
  "odd (length [''A'', ''B'', ''C''])
   \<and> generateFixturesAlgorithm seq_ids ''t1'' [''A'', ''B'', ''C''] [] True \<noteq> []
   \<and> playerAId (hd (generateFixturesAlgorithm seq_ids ''t1'' [''A'', ''B'', ''C''] [] True)) \<noteq> ''GHOST''
   \<and> playerBId (hd (generateFixturesAlgorithm seq_ids ''t1'' [''A'', ''B'', ''C''] [] True)) \<noteq> ''GHOST''"
proof -
  have h: "odd (length [''A'', ''B'', ''C''])" by simp
  have ne: "generateFixturesAlgorithm seq_ids ''t1'' [''A'', ''B'', ''C''] [] True \<noteq> []"
    by code_simp
  then have "hd (generateFixturesAlgorithm seq_ids ''t1'' [''A'', ''B'', ''C''] [] True)
      \<in> set (generateFixturesAlgorithm seq_ids ''t1'' [''A'', ''B'', ''C''] [] True)"
    by (rule hd_in_set)
  with odd_roster_no_ghost [OF h, of seq_ids "''t1''" "[]" True] h ne show ?thesis by blast
qed

text \<open>
  C8. The first leg (the first half of the returned list) is, in order: for every round
  \<open>rnd = 0, \<dots>, numPlayers - 2\<close> and every pair index \<open>i = 0, \<dots>, numPlayers div 2 - 1\<close>
  whose two entries \<open>p1 = rotation[i]\<close> and \<open>p2 = rotation[numPlayers - 1 - i]\<close> are both
  not \<^verbatim>\<open>GHOST\<close>, one match on matchday \<open>rnd + 1\<close> with the sides swapped (\<open>p2\<close> at home,
  \<open>p1\<close> away) when \<open>rnd + i\<close> is even and unswapped (\<open>p1\<close> at home, \<open>p2\<close> away) when it
  is odd.
\<close>

theorem first_leg_home_away:
  "map fx (take (length (generateFixturesAlgorithm ids tid ps asgs uo) div 2)
             (generateFixturesAlgorithm ids tid ps asgs uo)) =
     concat (map (\<lambda>rnd.
        map (\<lambda>i. if even (rnd + i)
                 then (rnd + 1, rotationAt ps rnd ! (length (fixturePlayers ps) - 1 - i),
                       rotationAt ps rnd ! i)
                 else (rnd + 1, rotationAt ps rnd ! i,
                       rotationAt ps rnd ! (length (fixturePlayers ps) - 1 - i)))
          (filter (\<lambda>i. rotationAt ps rnd ! i \<noteq> ''GHOST''
                      \<and> rotationAt ps rnd ! (length (fixturePlayers ps) - 1 - i) \<noteq> ''GHOST'')
             [0..<length (fixturePlayers ps) div 2]))
       [0..<length (fixturePlayers ps) - 1])"
proof -
  let ?res = "generateFixturesAlgorithm ids tid ps asgs uo"
  let ?k = "length (fixturePlayers ps) - 1"
  have fxr: "map fx ?res = firstLeg ps @ map (returnFixture ?k) (firstLeg ps)"
    by (rule fx_generateFixtures)
  then have "length (map fx ?res) = 2 * length (firstLeg ps)"
    by (simp only: length_append length_map mult_2)
  then have half: "length ?res div 2 = length (firstLeg ps)" by simp
  have "map fx (take (length ?res div 2) ?res) = take (length (firstLeg ps)) (map fx ?res)"
    by (simp only: half take_map)
  also have "\<dots> = firstLeg ps" by (simp only: fxr) simp
  finally show ?thesis
    by (simp only: firstLeg_def roundPairs_def length_rotationAt)
qed

theorem first_leg_home_away_witness:
  "map fx (take 6 (generateFixturesAlgorithm seq_ids ''t1'' [''A'', ''B'', ''C'', ''D''] [] True)) =
     [(1, ''D'', ''A''), (1, ''B'', ''C''), (2, ''A'', ''C''),
      (2, ''B'', ''D''), (3, ''B'', ''A''), (3, ''C'', ''D'')]
   \<and> rotationAt [''A'', ''B'', ''C'', ''D''] 0 = [''A'', ''B'', ''C'', ''D'']
   \<and> rotationAt [''A'', ''B'', ''C'', ''D''] 1 = [''A'', ''D'', ''B'', ''C'']
   \<and> rotationAt [''A'', ''B'', ''C'', ''D''] 2 = [''A'', ''C'', ''D'', ''B'']"
proof -
  have len: "length (generateFixturesAlgorithm seq_ids ''t1'' [''A'', ''B'', ''C'', ''D''] [] True) div 2 = 6"
    by code_simp
  have n: "length (fixturePlayers [''A'', ''B'', ''C'', ''D'']) = 4"
    by code_simp
  have r0: "rotationAt [''A'', ''B'', ''C'', ''D''] 0 = [''A'', ''B'', ''C'', ''D'']"
    by code_simp
  have r1: "rotationAt [''A'', ''B'', ''C'', ''D''] (Suc 0) = [''A'', ''D'', ''B'', ''C'']"
    by code_simp
  have r2: "rotationAt [''A'', ''B'', ''C'', ''D''] 2 = [''A'', ''C'', ''D'', ''B'']"
    by code_simp
  have up: "[0..<3] = [0, Suc 0, 2]" "[0..<2] = [0, Suc 0]" by (simp_all add: upt_rec)
  note t = first_leg_home_away [of seq_ids "''t1''" "[''A'', ''B'', ''C'', ''D'']" "[]" True]
  have "map fx (take 6 (generateFixturesAlgorithm seq_ids ''t1'' [''A'', ''B'', ''C'', ''D''] [] True)) =
     [(1, ''D'', ''A''), (1, ''B'', ''C''), (2, ''A'', ''C''),
      (2, ''B'', ''D''), (3, ''B'', ''A''), (3, ''C'', ''D'')]"
    using t unfolding len n by (simp add: up r0 r1 r2)
  then show ?thesis using r0 r1 r2 by simp
qed

section \<open>Properties of the lottery draw\<close>

lemma getAssignments_db_log:
  "getAssignments tid (db_log i n u a d db) = getAssignments tid db"
  by (simp add: getAssignments_def db_log_def Let_def)

lemma map_enumerate_nth:
  "length ps \<le> length pool \<Longrightarrow>
     map (\<lambda>x. f (pool ! fst x)) (enumerate 0 ps) = map f (take (length ps) pool)"
proof (induction ps arbitrary: pool rule: rev_induct)
  case Nil
  then show ?case by simp
next
  case (snoc p ps)
  then have l: "length ps < length pool" by simp
  then have "take (Suc (length ps)) pool = take (length ps) pool @ [pool ! length ps]"
    by (rule take_Suc_conv_app_nth)
  with snoc l show ?case by (simp add: enumerate_append_eq)
qed

lemma runLottery_upcoming:
  assumes up: "status t = UPCOMING"
    and perm: "mset (shuffle (drawPool t gTeams)) = mset (drawPool t gTeams)"
    and ids: "distinct (map g_id gTeams)"
  shows "(length (participantUserIds t) \<le> length (drawPool t gTeams) \<longrightarrow>
            fst (runLottery shuffle ids logId now uid t gTeams db) = LotteryCommitted
          \<and> length (getAssignments (t_id t) (snd (runLottery shuffle ids logId now uid t gTeams db)))
              = length (participantUserIds t)
          \<and> map a_userId (getAssignments (t_id t) (snd (runLottery shuffle ids logId now uid t gTeams db)))
              = participantUserIds t
          \<and> map teamId (getAssignments (t_id t) (snd (runLottery shuffle ids logId now uid t gTeams db)))
              = map g_id (take (length (participantUserIds t)) (shuffle (drawPool t gTeams)))
          \<and> distinct (map teamId
                (getAssignments (t_id t) (snd (runLottery shuffle ids logId now uid t gTeams db))))
          \<and> (\<forall>tid'. tid' \<noteq> t_id t \<longrightarrow>
                getAssignments tid' (snd (runLottery shuffle ids logId now uid t gTeams db))
                  = getAssignments tid' db))
       \<and> (length (drawPool t gTeams) < length (participantUserIds t) \<longrightarrow>
            runLottery shuffle ids logId now uid t gTeams db
              = (DrawPoolTooSmall (length (participantUserIds t)), db))"
proof -
  let ?ps = "participantUserIds t"
  let ?pool = "shuffle (drawPool t gTeams)"
  let ?new = "map (\<lambda>(idx, u). \<lparr>a_id = ids idx, a_tournamentId = t_id t, a_userId = u,
                     teamId = g_id (?pool ! idx)\<rparr>) (enumerate 0 ?ps)"
  have len: "length ?pool = length (drawPool t gTeams)"
    using perm by (metis size_mset)
  have small: "runLottery shuffle ids logId now uid t gTeams db
              = (DrawPoolTooSmall (length ?ps), db)"
    if "length (drawPool t gTeams) < length ?ps"
    using that up len by (simp add: runLottery_def Let_def)
  have big: "fst (runLottery shuffle ids logId now uid t gTeams db) = LotteryCommitted
          \<and> length (getAssignments (t_id t) (snd (runLottery shuffle ids logId now uid t gTeams db)))
              = length ?ps
          \<and> map a_userId (getAssignments (t_id t) (snd (runLottery shuffle ids logId now uid t gTeams db)))
              = ?ps
          \<and> map teamId (getAssignments (t_id t) (snd (runLottery shuffle ids logId now uid t gTeams db)))
              = map g_id (take (length ?ps) ?pool)
          \<and> distinct (map teamId
                (getAssignments (t_id t) (snd (runLottery shuffle ids logId now uid t gTeams db))))
          \<and> (\<forall>tid'. tid' \<noteq> t_id t \<longrightarrow>
                getAssignments tid' (snd (runLottery shuffle ids logId now uid t gTeams db))
                  = getAssignments tid' db)"
    if le: "length ?ps \<le> length (drawPool t gTeams)"
  proof -
    have run: "runLottery shuffle ids logId now uid t gTeams db =
        (LotteryCommitted, db_log logId now uid ''LOTTERY_COMMIT''
           (''Fair-draw logic applied to '' @ t_name t)
           (addAssignments ?new (resetTournamentSchedule (t_id t) db)))"
      using le up len by (simp add: runLottery_def Let_def)
    have all_new: "filter (\<lambda>a. a_tournamentId a = t_id t) ?new = ?new"
      by (rule filter_True) auto
    have own: "getAssignments (t_id t) (snd (runLottery shuffle ids logId now uid t gTeams db)) = ?new"
      unfolding run
      by (simp only: snd_conv getAssignments_db_log)
        (simp add: getAssignments_def addAssignments_def resetTournamentSchedule_def all_new
          del: map_map)
    have other: "getAssignments tid' (snd (runLottery shuffle ids logId now uid t gTeams db))
                  = getAssignments tid' db" if "tid' \<noteq> t_id t" for tid'
    proof -
      have "filter (\<lambda>a. a_tournamentId a = tid') ?new = []"
        using that by (auto simp: filter_empty_conv)
      moreover have "filter (\<lambda>a. a_tournamentId a = tid')
          (filter (\<lambda>a. a_tournamentId a \<noteq> t_id t) (assignments db))
          = filter (\<lambda>a. a_tournamentId a = tid') (assignments db)"
        using that by (auto intro: filter_cong)
      ultimately show ?thesis
        unfolding run
        by (simp only: snd_conv getAssignments_db_log)
          (simp add: getAssignments_def addAssignments_def resetTournamentSchedule_def
            del: map_map filter_filter)
    qed
    have users: "map a_userId ?new = ?ps"
      by (simp add: o_def case_prod_beta)
    have teams: "map teamId ?new = map g_id (take (length ?ps) ?pool)"
      using le len map_enumerate_nth [of ?ps ?pool g_id]
      by (simp add: o_def case_prod_beta)
    have "distinct (map g_id (drawPool t gTeams))"
      using ids unfolding drawPool_def by (rule distinct_map_filter)
    then have "distinct (map g_id ?pool)"
      using perm by (metis distinct_map mset_eq_imp_distinct_iff mset_map set_mset_mset inj_on_cong mset_eq_setD)
    then have dist: "distinct (map g_id (take (length ?ps) ?pool))"
      by (simp add: take_map [symmetric] distinct_take)
    have f1: "fst (runLottery shuffle ids logId now uid t gTeams db) = LotteryCommitted"
      by (simp only: run fst_conv)
    have f2: "length (getAssignments (t_id t) (snd (runLottery shuffle ids logId now uid t gTeams db)))
              = length ?ps"
      by (simp only: own) simp
    have f3: "map a_userId (getAssignments (t_id t) (snd (runLottery shuffle ids logId now uid t gTeams db)))
              = ?ps"
      by (simp only: own users)
    have f4: "map teamId (getAssignments (t_id t) (snd (runLottery shuffle ids logId now uid t gTeams db)))
              = map g_id (take (length ?ps) ?pool)"
      by (simp only: own teams)
    have f5: "distinct (map teamId
                (getAssignments (t_id t) (snd (runLottery shuffle ids logId now uid t gTeams db))))"
      by (simp only: f4 dist)
    show ?thesis
      using f1 f2 f3 f4 f5 other by blast
  qed
  show ?thesis using small big by blast
qed

lemma getMatches_db_log:
  "getMatches tid (db_log i n u a d db) = getMatches tid db"
  by (simp add: getMatches_def db_log_def Let_def)

lemma runLottery_clears_matches:
  assumes "status t = UPCOMING"
    and "length (participantUserIds t) \<le> length (shuffle (drawPool t gTeams))"
  shows "getMatches (t_id t) (snd (runLottery shuffle ids logId now uid t gTeams db)) = []"
  using assms
  by (simp add: runLottery_def Let_def getMatches_db_log)
     (simp add: getMatches_def addAssignments_def resetTournamentSchedule_def)

text \<open>
  C4 (as amended). The shuffle returns a permutation of the pool (the global teams selected
  for the tournament), and the ids of the global teams are unique. While the component's
  tournament is not \<^verbatim>\<open>Upcoming\<close>, \<^verbatim>\<open>runLottery\<close> returns at once and changes nothing. While
  it is \<^verbatim>\<open>Upcoming\<close> and the pool holds at least as many teams as the roster has members
  \<open>N\<close>, \<^verbatim>\<open>runLottery\<close> commits, and the assignments of the tournament are then exactly
  \<open>N\<close>, the \<open>i\<close>-th one pairing the \<open>i\<close>-th roster member (in roster order) with the
  \<open>i\<close>-th team of the shuffled pool, no team twice, whatever assignments the tournament
  had before; the tournament has no match left, and the assignments of every other
  tournament are as before. While it is \<^verbatim>\<open>Upcoming\<close> and the pool holds fewer than \<open>N\<close>
  teams, \<^verbatim>\<open>runLottery\<close> alerts that the pool is too small, naming \<open>N\<close>, and changes
  nothing.
\<close>

theorem runLottery_draw:
  assumes perm: "mset (shuffle (drawPool t gTeams)) = mset (drawPool t gTeams)"
    and ids: "distinct (map g_id gTeams)"
  shows "(status t \<noteq> UPCOMING \<longrightarrow>
            runLottery shuffle ids logId now uid t gTeams db = (LotteryIgnored, db))
       \<and> (status t = UPCOMING
            \<and> length (participantUserIds t) \<le> length (drawPool t gTeams) \<longrightarrow>
            fst (runLottery shuffle ids logId now uid t gTeams db) = LotteryCommitted
          \<and> length (getAssignments (t_id t) (snd (runLottery shuffle ids logId now uid t gTeams db)))
              = length (participantUserIds t)
          \<and> map a_userId (getAssignments (t_id t) (snd (runLottery shuffle ids logId now uid t gTeams db)))
              = participantUserIds t
          \<and> map teamId (getAssignments (t_id t) (snd (runLottery shuffle ids logId now uid t gTeams db)))
              = map g_id (take (length (participantUserIds t)) (shuffle (drawPool t gTeams)))
          \<and> distinct (map teamId
                (getAssignments (t_id t) (snd (runLottery shuffle ids logId now uid t gTeams db))))
          \<and> getMatches (t_id t) (snd (runLottery shuffle ids logId now uid t gTeams db)) = []
          \<and> (\<forall>tid'. tid' \<noteq> t_id t \<longrightarrow>
                getAssignments tid' (snd (runLottery shuffle ids logId now uid t gTeams db))
                  = getAssignments tid' db))
       \<and> (status t = UPCOMING
            \<and> length (drawPool t gTeams) < length (participantUserIds t) \<longrightarrow>
            runLottery shuffle ids logId now uid t gTeams db
              = (DrawPoolTooSmall (length (participantUserIds t)), db))"
proof (rule conjI [OF impI conjI [OF impI impI]])
  assume "status t \<noteq> UPCOMING"
  then show "runLottery shuffle ids logId now uid t gTeams db = (LotteryIgnored, db)"
    by (simp add: runLottery_def)
next
  assume h: "status t = UPCOMING \<and> length (drawPool t gTeams) < length (participantUserIds t)"
  then have up: "status t = UPCOMING" by simp
  from runLottery_upcoming [where shuffle = shuffle and t = t and gTeams = gTeams
      and ids = ids and logId = logId and now = now and uid = uid and db = db,
      OF up perm ids, THEN conjunct2] h
  show "runLottery shuffle ids logId now uid t gTeams db
              = (DrawPoolTooSmall (length (participantUserIds t)), db)"
    by simp
next
  assume h: "status t = UPCOMING \<and> length (participantUserIds t) \<le> length (drawPool t gTeams)"
  then have up: "status t = UPCOMING"
    and le: "length (participantUserIds t) \<le> length (drawPool t gTeams)" by simp_all
  have len: "length (shuffle (drawPool t gTeams)) = length (drawPool t gTeams)"
    using perm by (metis size_mset)
  note big = runLottery_upcoming [where shuffle = shuffle and t = t and gTeams = gTeams
      and ids = ids and logId = logId and now = now and uid = uid and db = db,
      OF up perm ids, THEN conjunct1, THEN mp, OF le]
  have m: "getMatches (t_id t) (snd (runLottery shuffle ids logId now uid t gTeams db)) = []"
    using up le len by (intro runLottery_clears_matches) simp_all
  show "fst (runLottery shuffle ids logId now uid t gTeams db) = LotteryCommitted
          \<and> length (getAssignments (t_id t) (snd (runLottery shuffle ids logId now uid t gTeams db)))
              = length (participantUserIds t)
          \<and> map a_userId (getAssignments (t_id t) (snd (runLottery shuffle ids logId now uid t gTeams db)))
              = participantUserIds t
          \<and> map teamId (getAssignments (t_id t) (snd (runLottery shuffle ids logId now uid t gTeams db)))
              = map g_id (take (length (participantUserIds t)) (shuffle (drawPool t gTeams)))
          \<and> distinct (map teamId
                (getAssignments (t_id t) (snd (runLottery shuffle ids logId now uid t gTeams db))))
          \<and> getMatches (t_id t) (snd (runLottery shuffle ids logId now uid t gTeams db)) = []
          \<and> (\<forall>tid'. tid' \<noteq> t_id t \<longrightarrow>
                getAssignments tid' (snd (runLottery shuffle ids logId now uid t gTeams db))
                  = getAssignments tid' db)"
    by (insert big m, elim conjE, intro conjI, assumption+)
qed

theorem runLottery_draw_witness:
  "status (lottery_tournament UPCOMING [''team-1'', ''team-3'']) = UPCOMING
   \<and> distinct (map g_id sample_teams)
   \<and> length (participantUserIds (lottery_tournament UPCOMING [''team-1'', ''team-3'']))
        \<le> length (drawPool (lottery_tournament UPCOMING [''team-1'', ''team-3'']) sample_teams)
   \<and> fst (runLottery rev seq_ids ''log-1'' ''2024-01-03'' ''admin-1''
          (lottery_tournament UPCOMING [''team-1'', ''team-3'']) sample_teams (sample_data UPCOMING))
        = LotteryCommitted
   \<and> map a_userId (getAssignments ''t1'' (snd (runLottery rev seq_ids ''log-1'' ''2024-01-03'' ''admin-1''
          (lottery_tournament UPCOMING [''team-1'', ''team-3'']) sample_teams (sample_data UPCOMING))))
        = [''u1'', ''u2'']
   \<and> map teamId (getAssignments ''t1'' (snd (runLottery rev seq_ids ''log-1'' ''2024-01-03'' ''admin-1''
          (lottery_tournament UPCOMING [''team-1'', ''team-3'']) sample_teams (sample_data UPCOMING))))
        = [''team-3'', ''team-1'']
   \<and> length (drawPool (lottery_tournament UPCOMING [''team-1'']) sample_teams)
        < length (participantUserIds (lottery_tournament UPCOMING [''team-1'']))
   \<and> runLottery rev seq_ids ''log-1'' ''2024-01-03'' ''admin-1''
          (lottery_tournament UPCOMING [''team-1'']) sample_teams (sample_data UPCOMING)
        = (DrawPoolTooSmall 2, sample_data UPCOMING)"
proof -
  let ?T = "lottery_tournament UPCOMING [''team-1'', ''team-3'']"
  let ?T1 = "lottery_tournament UPCOMING [''team-1'']"
  have up: "status ?T = UPCOMING" "status ?T1 = UPCOMING"
    by (simp_all add: lottery_tournament_def sample_tournament_def)
  have perm: "mset (rev (drawPool t sample_teams)) = mset (drawPool t sample_teams)" for t
    by simp
  have ids: "distinct (map g_id sample_teams)"
    by (simp add: sample_teams_def sample_team_def)
  have pool: "drawPool ?T sample_teams = [sample_team ''team-1'', sample_team ''team-3'']"
    by (simp add: drawPool_def lottery_tournament_def sample_tournament_def sample_teams_def
        sample_team_def)
  have pool1: "drawPool ?T1 sample_teams = [sample_team ''team-1'']"
    by (simp add: drawPool_def lottery_tournament_def sample_tournament_def sample_teams_def
        sample_team_def)
  have ps: "participantUserIds ?T = [''u1'', ''u2'']" "participantUserIds ?T1 = [''u1'', ''u2'']"
    "t_id ?T = ''t1''"
    by (simp_all add: lottery_tournament_def sample_tournament_def)
  have le: "length (participantUserIds ?T) \<le> length (drawPool ?T sample_teams)"
    by (simp add: pool ps)
  have lt: "length (drawPool ?T1 sample_teams) < length (participantUserIds ?T1)"
    by (simp add: pool1 ps)
  note big = runLottery_draw [where shuffle = rev and t = ?T and gTeams = sample_teams
      and ids = seq_ids and logId = "''log-1''" and now = "''2024-01-03''" and uid = "''admin-1''"
      and db = "sample_data UPCOMING", OF perm ids, THEN conjunct2, THEN conjunct1, THEN mp,
      OF conjI [OF up(1) le]]
  note small = runLottery_draw [where shuffle = rev and t = ?T1 and gTeams = sample_teams
      and ids = seq_ids and logId = "''log-1''" and now = "''2024-01-03''" and uid = "''admin-1''"
      and db = "sample_data UPCOMING", OF perm ids, THEN conjunct2, THEN conjunct2, THEN mp,
      OF conjI [OF up(2) lt]]
  have c1: "fst (runLottery rev seq_ids ''log-1'' ''2024-01-03'' ''admin-1'' ?T sample_teams
      (sample_data UPCOMING)) = LotteryCommitted"
    by (rule big [THEN conjunct1])
  have c2: "map a_userId (getAssignments ''t1'' (snd (runLottery rev seq_ids ''log-1'' ''2024-01-03''
      ''admin-1'' ?T sample_teams (sample_data UPCOMING)))) = [''u1'', ''u2'']"
    using big [THEN conjunct2, THEN conjunct2, THEN conjunct1] by (simp only: ps)
  have c3: "map teamId (getAssignments ''t1'' (snd (runLottery rev seq_ids ''log-1'' ''2024-01-03''
      ''admin-1'' ?T sample_teams (sample_data UPCOMING)))) = [''team-3'', ''team-1'']"
    using big [THEN conjunct2, THEN conjunct2, THEN conjunct2, THEN conjunct1]
    by (simp add: ps pool sample_team_def)
  have c4: "runLottery rev seq_ids ''log-1'' ''2024-01-03'' ''admin-1'' ?T1 sample_teams
      (sample_data UPCOMING) = (DrawPoolTooSmall 2, sample_data UPCOMING)"
    using small by (simp add: ps)
  show ?thesis
    by (intro conjI up(1) ids le c1 c2 c3 lt c4)
qed

text \<open>
  C4 as stated fails in its last part. The tournament is upcoming, has two managers and
  two selected team ids, of which \<^verbatim>\<open>team-9\<close> is not (or no longer) a global team, so that
  the button of the draw is enabled and the pool holds one team. \<^verbatim>\<open>runLottery\<close> throws no
  error: it alerts \<^verbatim>\<open>Draw pool too small. Need at least 2 teams.\<close>, which names the
  number of teams required, while the shortfall is one team.
\<close>

theorem runLottery_alert_counterexample:
  "status (lottery_tournament UPCOMING [''team-1'', ''team-9'']) = UPCOMING
   \<and> t_type (lottery_tournament UPCOMING [''team-1'', ''team-9'']) = LOTTERY
   \<and> participantUserIds (lottery_tournament UPCOMING [''team-1'', ''team-9'']) = [''u1'', ''u2'']
   \<and> length (selectedTeamIds (lottery_tournament UPCOMING [''team-1'', ''team-9''])) = 2
   \<and> drawPool (lottery_tournament UPCOMING [''team-1'', ''team-9'']) sample_teams
        = [sample_team ''team-1'']
   \<and> length (participantUserIds (lottery_tournament UPCOMING [''team-1'', ''team-9'']))
        - length (drawPool (lottery_tournament UPCOMING [''team-1'', ''team-9'']) sample_teams) = 1
   \<and> runLottery rev seq_ids ''log-1'' ''2024-01-03'' ''admin-1''
        (lottery_tournament UPCOMING [''team-1'', ''team-9'']) sample_teams (sample_data UPCOMING)
      = (DrawPoolTooSmall 2, sample_data UPCOMING)
   \<and> DrawPoolTooSmall 2 \<noteq> DrawPoolTooSmall 1"
  by (simp add: runLottery_def drawPool_def lottery_tournament_def sample_tournament_def
      sample_teams_def sample_team_def)

text \<open>
  On a tournament that is not upcoming \<^verbatim>\<open>runLottery\<close> returns at once: with two
  managers and a pool of two teams, the call on an active tournament leaves the store
  without assignments as it was.
\<close>

lemma runLottery_ignored_when_active:
  "length (participantUserIds (lottery_tournament ACTIVE [''team-1'', ''team-3''])) = 2
   \<and> length (drawPool (lottery_tournament ACTIVE [''team-1'', ''team-3'']) sample_teams) = 2
   \<and> runLottery rev seq_ids ''log-1'' ''2024-01-03'' ''admin-1''
        (lottery_tournament ACTIVE [''team-1'', ''team-3'']) sample_teams
        ((sample_data ACTIVE)\<lparr>assignments := []\<rparr>)
      = (LotteryIgnored, (sample_data ACTIVE)\<lparr>assignments := []\<rparr>)
   \<and> getAssignments ''t1'' (snd (runLottery rev seq_ids ''log-1'' ''2024-01-03'' ''admin-1''
        (lottery_tournament ACTIVE [''team-1'', ''team-3'']) sample_teams
        ((sample_data ACTIVE)\<lparr>assignments := []\<rparr>))) = []"
  by (simp add: runLottery_def drawPool_def lottery_tournament_def sample_tournament_def
      sample_teams_def sample_team_def getAssignments_def)

section \<open>Deleting a tournament\<close>

text \<open>
  The local-storage service (services/db.ts, lines 114-120): after \<^verbatim>\<open>deleteTournament\<close>
  no tournament, match, assignment or chat message of the id is left, and the records of
  every other tournament, the lobby chat, the users, the teams, the codes and the audit log
  are as before.
\<close>

lemma deleteTournament_cascade:
  "(\<forall>m \<in> set (matches (deleteTournament tid db)). m_tournamentId m \<noteq> tid)
   \<and> (\<forall>a \<in> set (assignments (deleteTournament tid db)). a_tournamentId a \<noteq> tid)
   \<and> (\<forall>c \<in> set (chatMessages (deleteTournament tid db)). c_tournamentId c \<noteq> Some tid)
   \<and> (\<forall>t \<in> set (tournaments (deleteTournament tid db)). t_id t \<noteq> tid)
   \<and> (\<forall>tid'. tid' \<noteq> tid \<longrightarrow>
         filter (\<lambda>m. m_tournamentId m = tid') (matches (deleteTournament tid db))
           = filter (\<lambda>m. m_tournamentId m = tid') (matches db)
       \<and> filter (\<lambda>a. a_tournamentId a = tid') (assignments (deleteTournament tid db))
           = filter (\<lambda>a. a_tournamentId a = tid') (assignments db)
       \<and> filter (\<lambda>c. c_tournamentId c = Some tid') (chatMessages (deleteTournament tid db))
           = filter (\<lambda>c. c_tournamentId c = Some tid') (chatMessages db)
       \<and> filter (\<lambda>t. t_id t = tid') (tournaments (deleteTournament tid db))
           = filter (\<lambda>t. t_id t = tid') (tournaments db))
   \<and> filter (\<lambda>c. c_tournamentId c = None) (chatMessages (deleteTournament tid db))
           = filter (\<lambda>c. c_tournamentId c = None) (chatMessages db)
   \<and> users (deleteTournament tid db) = users db
   \<and> globalTeams (deleteTournament tid db) = globalTeams db
   \<and> invitationCodes (deleteTournament tid db) = invitationCodes db
   \<and> auditLogs (deleteTournament tid db) = auditLogs db"
  by (auto simp: deleteTournament_def intro: filter_cong)

lemma insertSorted_snoc:
  "cmp x z \<le> 0 \<Longrightarrow> insertSorted cmp x (ys @ [z]) = insertSorted cmp x ys @ [z]"
  by (induction ys) auto

lemma stableSort_snoc:
  "\<forall>x \<in> set xs. cmp x z \<le> 0 \<Longrightarrow> stableSort cmp (xs @ [z]) = stableSort cmp xs @ [z]"
proof (induction xs)
  case Nil
  then show ?case by (simp add: stableSort_def)
next
  case (Cons x xs)
  then have "stableSort cmp (xs @ [z]) = stableSort cmp xs @ [z]" by simp
  then show ?case using Cons.prems by (simp add: stableSort_def insertSorted_snoc)
qed

lemma length_insertSorted: "length (insertSorted cmp x xs) = Suc (length xs)"
  by (induction xs) auto

lemma length_stableSort: "length (stableSort cmp xs) = length xs"
  by (induction xs) (simp_all add: stableSort_def length_insertSorted)

lemma processBatchDelete_Nil: "processBatchDelete [] db = db"
  by simp

lemma busy_store_first_100:
  "take 100 (stableSort compareChat (chatMessages busy_store)) =
     stableSort compareChat (map lobby_chat [0..<100])"
proof -
  have "\<forall>x \<in> set (map lobby_chat [0..<100]). compareChat x (sample_chat ''c1'' (Some ''t1'')) \<le> 0"
    by (simp add: lobby_chat_def sample_chat_def compareChat_def)
  then have "stableSort compareChat (map lobby_chat [0..<100] @ [sample_chat ''c1'' (Some ''t1'')]) =
      stableSort compareChat (map lobby_chat [0..<100]) @ [sample_chat ''c1'' (Some ''t1'')]"
    by (rule stableSort_snoc)
  then show ?thesis
    by (simp add: busy_store_def length_stableSort)
qed

text \<open>
  C9 fails on the Firestore service: \<^verbatim>\<open>deleteTournament\<close> finds the chat messages to
  delete through \<^verbatim>\<open>getChat\<close>, whose query is limited to the 100 oldest messages of the
  whole chat. In a store with 100 older lobby messages, the message of the tournament
  \<^verbatim>\<open>t1\<close> is still there after \<^verbatim>\<open>deleteTournament('t1')\<close>, while the tournament, its
  match and its assignment are gone.
\<close>

theorem fs_deleteTournament_leaves_chat:
  "sample_chat ''c1'' (Some ''t1'') \<in> set (chatMessages busy_store)
   \<and> c_tournamentId (sample_chat ''c1'' (Some ''t1'')) = Some ''t1''
   \<and> length (chatMessages busy_store) = 101
   \<and> sample_chat ''c1'' (Some ''t1'') \<in> set (chatMessages (fs_deleteTournament ''t1'' busy_store))
   \<and> tournaments (fs_deleteTournament ''t1'' busy_store) = []
   \<and> matches (fs_deleteTournament ''t1'' busy_store) = []
   \<and> assignments (fs_deleteTournament ''t1'' busy_store) = []"
proof -
  have lobby: "filter (\<lambda>m. c_tournamentId m = Some ''t1'') (stableSort compareChat (map lobby_chat [0..<100])) = []"
    by (auto simp: filter_empty_conv set_stableSort lobby_chat_def)
  have chat: "fs_getChat ''t1'' (busy_store\<lparr>tournaments := []\<rparr>) = []"
    using busy_store_first_100 by (simp add: fs_getChat_def lobby)
  have db1: "busy_store\<lparr>tournaments := filter (\<lambda>t. t_id t \<noteq> ''t1'') (tournaments busy_store)\<rparr>
      = busy_store\<lparr>tournaments := []\<rparr>"
    by (simp add: busy_store_def sample_tournament_def)
  have ops: "fs_deleteTournament ''t1'' busy_store =
      processBatchDelete [MatchRef ''m1'', AssignmentRef ''a1''] (busy_store\<lparr>tournaments := []\<rparr>)"
    unfolding fs_deleteTournament_def Let_def db1 chat
    by (simp add: fs_getMatches_def fs_getAssignments_def busy_store_def sample_match_def
        sample_assignment_def)
  have res: "fs_deleteTournament ''t1'' busy_store =
      busy_store\<lparr>tournaments := [], matches := [], assignments := []\<rparr>"
    unfolding ops by (simp add: busy_store_def sample_match_def sample_assignment_def)
  show ?thesis
    unfolding res by (simp add: busy_store_def sample_chat_def)
qed

end
